theory Spec2Isabelle
  imports Main "HOL-Library.Sublist"
begin

section \<open>Constants and response types\<close>

text \<open>
  The module \<^verbatim>\<open>./constants\<close> is imported by the client but is not among the sources at
  hand, so its five constants are a parameter \<open>c\<close> of every operation.
\<close>

record constants =
  MAX_WAIT_TIME :: int
  RECOGNITION_POLLING_DELAY :: int
  SPEECH_BASE_URL :: string
  SPEECH_TOKEN_URL :: string
  TOKEN_SCOPE :: string

text \<open>
  The types of \<^verbatim>\<open>src/types.ts\<close>. The wrapper object \<^verbatim>\<open>result\<close> of the responses is
  flattened; \<^verbatim>\<open>RecognitionStatusResponse\<close> has the fields of \<^verbatim>\<open>RecognitionResponse\<close>
  and \<^verbatim>\<open>response_file_id\<close>. The field \<^verbatim>\<open>id\<close> is written \<open>id'\<close>. Numbers are
  integers (timestamps in milliseconds). A string is a list of code units below 256.
\<close>

record SberSaluteToken =
  access_token :: string
  expires_at :: int

record FileUploadResponse =
  request_file_id :: string

record RecognitionResponse =
  id' :: string
  created_at :: string
  updated_at :: string
  status :: string

record RecognitionStatusResponse = RecognitionResponse +
  response_file_id :: string

text \<open>
  \<^verbatim>\<open>RecognitionResultResponse\<close>: the array of segments that the download endpoint
  returns, each with its array \<^verbatim>\<open>results\<close> of fragments. The client folds over both
  with \<^verbatim>\<open>reduce\<close>, so both are lists of any length.
\<close>

record fragment =
  "text" :: string
  normalized_text :: string

record segment =
  results :: "fragment list"

type_synonym RecognitionResultResponse = "segment list"

record SpeechToTextResult =
  "text" :: string
  normalizedText :: string

text \<open>\<^verbatim>\<open>SupportedAudioEncoding\<close> is a string that the client passes on as it is.\<close>

type_synonym SupportedAudioEncoding = string

text \<open>The part of \<^verbatim>\<open>IAudioMetadata\<close> (music-metadata) that the client reads:
  \<^verbatim>\<open>format.sampleRate\<close> and \<^verbatim>\<open>format.numberOfChannels\<close>, both optional.\<close>

record IAudioMetadata =
  sampleRate :: "int option"
  numberOfChannels :: "int option"

section \<open>Requests, errors and the environment\<close>

datatype json = JString string | JNumber int | JUndefined | JObject "(string \<times> json) list"

text \<open>The \<^verbatim>\<open>data\<close> of a request: none, a string sent as it is, the form encoding
  \<^verbatim>\<open>qs.stringify(...)\<close> or \<^verbatim>\<open>JSON.stringify(...)\<close> of an object (both kept symbolic).\<close>

datatype body = NoData | Raw string | QsStringify "(string \<times> string) list" | JsonStringify json

datatype limit = Default | Infinity

record request =
  url :: string
  "method" :: string
  headers :: "(string \<times> string) list"
  data :: body
  maxBodyLength :: limit
  rejectUnauthorized :: bool

datatype endpoint = TokenExchange | Upload | AsyncRecognize | TaskGet | Download

text \<open>What the client does to the outside world, in order: an HTTP request through axios
  (tagged with the endpoint it goes to) and a \<^verbatim>\<open>setTimeout\<close> of the given milliseconds.\<close>

datatype event = Http endpoint request | SetTimeout int

text \<open>
  A thrown value: \<open>Error m\<close> is \<^verbatim>\<open>new Error(m)\<close> created by the client itself,
  \<open>AxiosError\<close> the rejection of an axios request and \<open>ParseFileError\<close> the rejection of
  \<^verbatim>\<open>parseFile\<close>, each with the collaborator's reason.
\<close>

datatype error = Error string | AxiosError string | ParseFileError string

text \<open>
  The collaborators of one run. \<open>clock E k\<close> is the value of the \<open>k\<close>-th call of
  \<^verbatim>\<open>Date.now()\<close>, \<open>uuid_v4 E k\<close> the \<open>k\<close>-th generated identifier, and each server
  gives the outcome of the \<open>k\<close>-th request to its endpoint: \<open>Inl\<close> a rejection, \<open>Inr\<close>
  the \<^verbatim>\<open>response.data\<close>. The token endpoint's data is \<open>None\<close> when it is not a token
  (a falsy value). Nothing is assumed of these functions: the clock need not even be monotone.
  The client is deterministic, so one run is fixed by the answers it gets in order, and an
  answer that depends only on the number of earlier requests to its endpoint describes
  every run. The client reads the audio file only through \<^verbatim>\<open>parseFile\<close>.
\<close>

record environment =
  clock :: "nat \<Rightarrow> int"
  uuid_v4 :: "nat \<Rightarrow> string"
  parseFile :: "string \<Rightarrow> string + IAudioMetadata"
  tokenServer :: "nat \<Rightarrow> string + SberSaluteToken option"
  uploadServer :: "nat \<Rightarrow> string + FileUploadResponse"
  recognizeServer :: "nat \<Rightarrow> string + RecognitionResponse"
  statusServer :: "nat \<Rightarrow> string + RecognitionStatusResponse"
  downloadServer :: "nat \<Rightarrow> string + RecognitionResultResponse"

text \<open>The history of the run so far: how often the clock and the generator were called,
  and the events in order.\<close>

record history =
  ticks :: nat
  uuids :: nat
  trace :: "event list"

text \<open>The fields of a \<^verbatim>\<open>SberSaluteSpeechRecognitionService\<close>, with the history.\<close>

record state = history +
  authKey :: string
  token :: "SberSaluteToken option"
  sessionId :: string

text \<open>The requests sent to an endpoint, in order.\<close>

definition requests :: "endpoint \<Rightarrow> event list \<Rightarrow> request list" where
  "requests ep tr = [r. Http ep' r \<leftarrow> tr, ep' = ep]"

text \<open>\<^verbatim>\<open>Date.now()\<close>: the next reading of the clock.\<close>

definition dateNow :: "environment \<Rightarrow> state \<Rightarrow> int \<times> state" where
  "dateNow E s = (clock E (ticks s), s\<lparr>ticks := Suc (ticks s)\<rparr>)"

text \<open>\<^verbatim>\<open>await this.delay(ms)\<close>: a timer of \<open>ms\<close> milliseconds; how much time passes shows
  in the later readings of the clock.\<close>

definition delay :: "int \<Rightarrow> state \<Rightarrow> state" where
  "delay ms s = s\<lparr>trace := trace s @ [SetTimeout ms]\<rparr>"

text \<open>
  \<^verbatim>\<open>await axios(config)\<close>: the request is sent, and the endpoint's server decides the
  outcome: a rejection is thrown as an \<open>AxiosError\<close>, otherwise the call yields
  \<^verbatim>\<open>response.data\<close>.
\<close>

definition axios :: "endpoint \<Rightarrow> request \<Rightarrow> (nat \<Rightarrow> string + 'a) \<Rightarrow> state \<Rightarrow> (error + 'a) \<times> state" where
  "axios ep config server s =
     (case server (length (requests ep (trace s))) of
        Inl reason \<Rightarrow> Inl (AxiosError reason)
      | Inr d \<Rightarrow> Inr d,
      s\<lparr>trace := trace s @ [Http ep config]\<rparr>)"

section \<open>The client\<close>

text \<open>\<^verbatim>\<open>constructor(authKey, sessionId?)\<close>: \<^verbatim>\<open>sessionId || uuid.v4()\<close> takes the
  generated identifier when the argument is missing or the empty string.\<close>

definition constructor :: "environment \<Rightarrow> string \<Rightarrow> string option \<Rightarrow> history \<Rightarrow> state" where
  "constructor E authKey0 sessionId0 h =
     (case (case sessionId0 of
              None \<Rightarrow> (uuid_v4 E (uuids h), Suc (uuids h))
            | Some sid \<Rightarrow> if sid \<noteq> [] then (sid, uuids h) else (uuid_v4 E (uuids h), Suc (uuids h))) of
        (sid, n) \<Rightarrow>
          \<lparr>ticks = ticks h, uuids = n, trace = trace h,
           authKey = authKey0, token = None, sessionId = sid\<rparr>)"

definition updateAccessToken :: "constants \<Rightarrow> environment \<Rightarrow> state \<Rightarrow> (error + unit) \<times> state" where
  "updateAccessToken c E s =
     (let data0 = QsStringify [(''scope'', TOKEN_SCOPE c)] in
      case axios TokenExchange
             \<lparr>url = SPEECH_TOKEN_URL c,
              method = ''POST'',
              headers = [(''Content-Type'', ''application/x-www-form-urlencoded''),
                         (''RqUID'', sessionId s),
                         (''Authorization'', ''Basic '' @ authKey s)],
              data = data0,
              maxBodyLength = Default,
              rejectUnauthorized = False\<rparr>
             (tokenServer E) s of
        (Inl e, s1) \<Rightarrow> (Inl e, s1)
      | (Inr d, s1) \<Rightarrow> (Inr (), s1\<lparr>token := d\<rparr>))"

definition getAccessToken :: "constants \<Rightarrow> environment \<Rightarrow> state \<Rightarrow> (error + SberSaluteToken) \<times> state" where
  "getAccessToken c E s =
     (case (case token s of
              None \<Rightarrow> updateAccessToken c E s
            | Some t \<Rightarrow>
                (case dateNow E s of
                   (now, s1) \<Rightarrow>
                     if expires_at t < now - MAX_WAIT_TIME c then updateAccessToken c E s1
                     else (Inr (), s1))) of
        (Inl e, s2) \<Rightarrow> (Inl e, s2)
      | (Inr u, s2) \<Rightarrow>
          (case token s2 of
             None \<Rightarrow> (Inl (Error ''Failed to get access token''), s2)
           | Some t \<Rightarrow> (Inr t, s2)))"

definition uploadFileForRecognition ::
    "constants \<Rightarrow> environment \<Rightarrow> string \<Rightarrow> state \<Rightarrow> (error + FileUploadResponse) \<times> state" where
  "uploadFileForRecognition c E audioFilePath s =
     (case getAccessToken c E s of
        (Inl e, s1) \<Rightarrow> (Inl e, s1)
      | (Inr t, s1) \<Rightarrow>
          axios Upload
            \<lparr>url = SPEECH_BASE_URL c @ ''/data:upload'',
             method = ''post'',
             headers = [(''Authorization'', ''Bearer '' @ access_token t),
                        (''Content-Type'', ''audio/mpeg'')],
             data = Raw audioFilePath,
             maxBodyLength = Infinity,
             rejectUnauthorized = False\<rparr>
            (uploadServer E) s1)"

definition number :: "int option \<Rightarrow> json" where
  "number n = (case n of None \<Rightarrow> JUndefined | Some k \<Rightarrow> JNumber k)"

definition startRecognition ::
    "constants \<Rightarrow> environment \<Rightarrow> FileUploadResponse \<Rightarrow> IAudioMetadata \<Rightarrow> SupportedAudioEncoding \<Rightarrow>
     state \<Rightarrow> (error + RecognitionResponse) \<times> state" where
  "startRecognition c E uploadedFile fileMetadata encoding s =
     (let data0 = JsonStringify (JObject
            [(''options'', JObject
                [(''model'', JString ''general''),
                 (''audio_encoding'', JString encoding),
                 (''sample_rate'', number (sampleRate fileMetadata)),
                 (''channels_count'', number (numberOfChannels fileMetadata))]),
             (''request_file_id'', JString (request_file_id uploadedFile))]) in
      case getAccessToken c E s of
        (Inl e, s1) \<Rightarrow> (Inl e, s1)
      | (Inr t, s1) \<Rightarrow>
          axios AsyncRecognize
            \<lparr>url = SPEECH_BASE_URL c @ ''/speech:async_recognize'',
             method = ''post'',
             headers = [(''Content-Type'', ''application/json''),
                        (''Authorization'', ''Bearer '' @ access_token t)],
             data = data0,
             maxBodyLength = Infinity,
             rejectUnauthorized = False\<rparr>
            (recognizeServer E) s1)"

definition getRecognitionStatus ::
    "constants \<Rightarrow> environment \<Rightarrow> RecognitionResponse \<Rightarrow> state \<Rightarrow>
     (error + RecognitionStatusResponse) \<times> state" where
  "getRecognitionStatus c E recognition s =
     (case getAccessToken c E s of
        (Inl e, s1) \<Rightarrow> (Inl e, s1)
      | (Inr t, s1) \<Rightarrow>
          axios TaskGet
            \<lparr>url = SPEECH_BASE_URL c @ ''/task:get?id='' @ id' recognition,
             method = ''get'',
             headers = [(''Authorization'', ''Bearer '' @ access_token t)],
             data = NoData,
             maxBodyLength = Infinity,
             rejectUnauthorized = False\<rparr>
            (statusServer E) s1)"

definition getRecognitionResult ::
    "constants \<Rightarrow> environment \<Rightarrow> RecognitionStatusResponse \<Rightarrow> state \<Rightarrow>
     (error + RecognitionResultResponse) \<times> state" where
  "getRecognitionResult c E recognition s =
     (case getAccessToken c E s of
        (Inl e, s1) \<Rightarrow> (Inl e, s1)
      | (Inr t, s1) \<Rightarrow>
          axios Download
            \<lparr>url = SPEECH_BASE_URL c @ ''/data:download?response_file_id=''
                     @ response_file_id recognition,
             method = ''get'',
             headers = [(''Authorization'', ''Bearer '' @ access_token t)],
             data = NoData,
             maxBodyLength = Infinity,
             rejectUnauthorized = False\<rparr>
            (downloadServer E) s1)"

subsection \<open>The polling loop of \<^verbatim>\<open>speechToText\<close>\<close>

text \<open>
  The \<^verbatim>\<open>while\<close> loop (lines 190 to 197). It need not end: with a clock that stays
  within the limit and a status that is never \<^verbatim>\<open>DONE\<close> it runs forever, which is the
  value \<open>None\<close>.
\<close>

partial_function (option) pollLoop ::
    "constants \<Rightarrow> environment \<Rightarrow> RecognitionResponse \<Rightarrow> int \<Rightarrow> RecognitionStatusResponse \<Rightarrow>
     state \<Rightarrow> ((error + RecognitionStatusResponse) \<times> state) option" where
  "pollLoop c E recognitionResponse startTime recognitionStatus s =
     (if status recognitionStatus \<noteq> ''DONE'' then
        (case dateNow E s of
           (now, s1) \<Rightarrow>
             if now - startTime > MAX_WAIT_TIME c then Some (Inl (Error ''Recognition timeout''), s1)
             else
               (case getRecognitionStatus c E recognitionResponse
                       (delay (RECOGNITION_POLLING_DELAY c) s1) of
                  (Inl e, s2) \<Rightarrow> Some (Inl e, s2)
                | (Inr recognitionStatus1, s2) \<Rightarrow>
                    pollLoop c E recognitionResponse startTime recognitionStatus1 s2))
      else Some (Inr recognitionStatus, s))"

text \<open>Lines 184 to 197: the start time, the first status query and the loop.\<close>

definition pollingStage ::
    "constants \<Rightarrow> environment \<Rightarrow> RecognitionResponse \<Rightarrow> state \<Rightarrow>
     ((error + RecognitionStatusResponse) \<times> state) option" where
  "pollingStage c E recognitionResponse s =
     (case dateNow E s of
        (startTime, s1) \<Rightarrow>
          (case getRecognitionStatus c E recognitionResponse s1 of
             (Inl e, s2) \<Rightarrow> Some (Inl e, s2)
           | (Inr recognitionStatus, s2) \<Rightarrow>
               pollLoop c E recognitionResponse startTime recognitionStatus s2))"

subsection \<open>The aggregation of \<^verbatim>\<open>speechToText\<close>\<close>

text \<open>\<^verbatim>\<open>String.prototype.trim\<close> removes white space and line terminators from both ends;
  among the code units below 256 these are TAB, LF, VT, FF, CR, SP and NBSP.\<close>

definition isWhiteSpace :: "char \<Rightarrow> bool" where
  "isWhiteSpace ch = (of_char ch \<in> {9, 10, 11, 12, 13, 32, 160 :: nat})"

definition trim :: "string \<Rightarrow> string" where
  "trim str = rev (dropWhile isWhiteSpace (rev (dropWhile isWhiteSpace str)))"

text \<open>Lines 202 to 224; \<^verbatim>\<open>xs.reduce(f, init)\<close> is \<open>foldl f init xs\<close>.\<close>

definition aggregate :: "RecognitionResultResponse \<Rightarrow> SpeechToTextResult" where
  "aggregate recognitionResult =
     \<lparr>text = trim (foldl (\<lambda>acc item.
                 acc @ foldl (\<lambda>acc item. acc @ '' '' @ fragment.text item) [] (results item))
               [] recognitionResult),
      normalizedText = trim (foldl (\<lambda>acc item.
                 acc @ foldl (\<lambda>acc item. acc @ '' '' @ normalized_text item) [] (results item))
               [] recognitionResult)\<rparr>"

subsection \<open>\<^verbatim>\<open>speechToText\<close>\<close>

definition speechToText ::
    "constants \<Rightarrow> environment \<Rightarrow> string \<Rightarrow> SupportedAudioEncoding \<Rightarrow> state \<Rightarrow>
     ((error + SpeechToTextResult) \<times> state) option" where
  "speechToText c E audioPath encoding s =
     (case parseFile E audioPath of
        Inl reason \<Rightarrow> Some (Inl (ParseFileError reason), s)
      | Inr metadata \<Rightarrow>
     (case uploadFileForRecognition c E audioPath s of
        (Inl e, s1) \<Rightarrow> Some (Inl e, s1)
      | (Inr fileUploadResponse, s1) \<Rightarrow>
     (case startRecognition c E fileUploadResponse metadata encoding s1 of
        (Inl e, s2) \<Rightarrow> Some (Inl e, s2)
      | (Inr recognitionResponse, s2) \<Rightarrow>
     (case pollingStage c E recognitionResponse s2 of
        None \<Rightarrow> None
      | Some (Inl e, s3) \<Rightarrow> Some (Inl e, s3)
      | Some (Inr recognitionStatus, s3) \<Rightarrow>
     (case getRecognitionResult c E recognitionStatus s3 of
        (Inl e, s4) \<Rightarrow> Some (Inl e, s4)
      | (Inr recognitionResult, s4) \<Rightarrow> Some (Inr (aggregate recognitionResult), s4))))))"

section \<open>Observing a run\<close>

text \<open>
  What a stretch of the trace shows of the stages: the token requests are left out, every
  other request is kept as its endpoint and URL, and every \<^verbatim>\<open>setTimeout\<close> as a sleep.
\<close>

datatype action = Query endpoint string | Sleep int

fun actions :: "event list \<Rightarrow> action list" where
  "actions [] = []"
| "actions (Http ep q # tr) =
     (if ep = TokenExchange then actions tr else Query ep (url q) # actions tr)"
| "actions (SetTimeout ms # tr) = Sleep ms # actions tr"

text \<open>The actions of the polling stage: status queries and sleeps.\<close>

fun isPoll :: "action \<Rightarrow> bool" where
  "isPoll (Query ep u) = (ep = TaskGet)"
| "isPoll (Sleep ms) = True"

text \<open>An event respects the session identifier \<open>sid\<close> when it is no token request, or a
  token request whose header \<^verbatim>\<open>RqUID\<close> is \<open>sid\<close>.\<close>

fun rqUid :: "string \<Rightarrow> event \<Rightarrow> bool" where
  "rqUid sid (Http ep q) = (ep \<noteq> TokenExchange \<or> map_of (headers q) ''RqUID'' = Some sid)"
| "rqUid sid (SetTimeout ms) = True"

text \<open>
  \<open>step s evs s'\<close>: the client went from \<open>s\<close> to \<open>s'\<close> and \<open>evs\<close> are the events it added.
  The clock was only read, no identifier was generated, the key and the session identifier
  are the same, and every token request among \<open>evs\<close> carries the session identifier.
\<close>

definition step :: "state \<Rightarrow> event list \<Rightarrow> state \<Rightarrow> bool" where
  "step s evs s' \<longleftrightarrow>
     trace s' = trace s @ evs \<and> ticks s \<le> ticks s' \<and> uuids s' = uuids s \<and>
     authKey s' = authKey s \<and> sessionId s' = sessionId s \<and> list_all (rqUid (sessionId s)) evs"

text \<open>The reason with which the \<open>k\<close>-th request to an endpoint is rejected, if it is.\<close>

definition rejection :: "environment \<Rightarrow> endpoint \<Rightarrow> nat \<Rightarrow> string option" where
  "rejection E ep k =
     (case ep of
        TokenExchange \<Rightarrow> (case tokenServer E k of Inl x \<Rightarrow> Some x | Inr d \<Rightarrow> None)
      | Upload \<Rightarrow> (case uploadServer E k of Inl x \<Rightarrow> Some x | Inr d \<Rightarrow> None)
      | AsyncRecognize \<Rightarrow> (case recognizeServer E k of Inl x \<Rightarrow> Some x | Inr d \<Rightarrow> None)
      | TaskGet \<Rightarrow> (case statusServer E k of Inl x \<Rightarrow> Some x | Inr d \<Rightarrow> None)
      | Download \<Rightarrow> (case downloadServer E k of Inl x \<Rightarrow> Some x | Inr d \<Rightarrow> None))"

text \<open>
  \<open>failure E tr e\<close>: with the trace \<open>tr\<close> at the moment of the failure, the error \<open>e\<close> is
  the token accessor's, or it is the rejection of the last request of the trace, with the
  reason the endpoint gave.
\<close>

definition failure :: "environment \<Rightarrow> event list \<Rightarrow> error \<Rightarrow> bool" where
  "failure E tr e \<longleftrightarrow>
     e = Error ''Failed to get access token'' \<or>
     (\<exists>tr' ep q reason. tr = tr' @ [Http ep q] \<and> e = AxiosError reason \<and>
        rejection E ep (length (requests ep tr')) = Some reason)"

text \<open>The actions of a complete run with \<open>n\<close> rounds of the polling loop, for the job
  \<open>rec\<close> and the final status \<open>st\<close>.\<close>

definition expectedActions ::
    "constants \<Rightarrow> RecognitionResponse \<Rightarrow> RecognitionStatusResponse \<Rightarrow> nat \<Rightarrow> action list" where
  "expectedActions c rec st n =
     [Query Upload (SPEECH_BASE_URL c @ ''/data:upload''),
      Query AsyncRecognize (SPEECH_BASE_URL c @ ''/speech:async_recognize''),
      Query TaskGet (SPEECH_BASE_URL c @ ''/task:get?id='' @ id' rec)]
     @ concat (replicate n
         [Sleep (RECOGNITION_POLLING_DELAY c),
          Query TaskGet (SPEECH_BASE_URL c @ ''/task:get?id='' @ id' rec)])
     @ [Query Download (SPEECH_BASE_URL c @ ''/data:download?response_file_id=''
          @ response_file_id st)]"

text \<open>What holds of an outcome \<open>y\<close> of the polling loop started in \<open>s\<close>.\<close>

definition pollPost ::
    "constants \<Rightarrow> environment \<Rightarrow> RecognitionResponse \<Rightarrow> state \<Rightarrow>
     (error + RecognitionStatusResponse) \<times> state \<Rightarrow> bool" where
  "pollPost c E rec s y \<longleftrightarrow>
     (\<exists>evs n. step s evs (snd y) \<and>
        (case fst y of
           Inl e \<Rightarrow> (e = Error ''Recognition timeout'' \<or> failure E (trace (snd y)) e) \<and>
             prefix (actions evs)
               (concat (replicate (Suc n)
                  [Sleep (RECOGNITION_POLLING_DELAY c),
                   Query TaskGet (SPEECH_BASE_URL c @ ''/task:get?id='' @ id' rec)]))
         | Inr st \<Rightarrow> status st = ''DONE'' \<and>
             actions evs =
               concat (replicate n
                  [Sleep (RECOGNITION_POLLING_DELAY c),
                   Query TaskGet (SPEECH_BASE_URL c @ ''/task:get?id='' @ id' rec)])))"

text \<open>
  \<open>pollPrefix c E rec s n\<close>: the polling stage started in \<open>s\<close> has read the start time,
  made its first status query and gone \<open>n\<close> times round the loop, every query was answered,
  and it is still running: the start time, the last status and the state reached. It is
  \<open>None\<close> when the stage has ended before (a status \<^verbatim>\<open>DONE\<close>, a timeout or a failed
  query).
\<close>

fun pollPrefix ::
    "constants \<Rightarrow> environment \<Rightarrow> RecognitionResponse \<Rightarrow> state \<Rightarrow> nat \<Rightarrow>
     (int \<times> RecognitionStatusResponse \<times> state) option" where
  "pollPrefix c E recognitionResponse s 0 =
     (case dateNow E s of
        (startTime, s1) \<Rightarrow>
          (case getRecognitionStatus c E recognitionResponse s1 of
             (Inl e, s2) \<Rightarrow> None
           | (Inr recognitionStatus, s2) \<Rightarrow> Some (startTime, recognitionStatus, s2)))"
| "pollPrefix c E recognitionResponse s (Suc n) =
     (case pollPrefix c E recognitionResponse s n of
        None \<Rightarrow> None
      | Some (startTime, recognitionStatus, s0) \<Rightarrow>
          if status recognitionStatus \<noteq> ''DONE'' then
            (case dateNow E s0 of
               (now, s1) \<Rightarrow>
                 if now - startTime > MAX_WAIT_TIME c then None
                 else
                   (case getRecognitionStatus c E recognitionResponse
                           (delay (RECOGNITION_POLLING_DELAY c) s1) of
                      (Inl e, s2) \<Rightarrow> None
                    | (Inr recognitionStatus1, s2) \<Rightarrow> Some (startTime, recognitionStatus1, s2)))
          else None)"

text \<open>
  Token requests among the events. \<open>tokenFirst evs\<close>: every token request in \<open>evs\<close> is the
  last event, or the event right after it is a request to another endpoint; so no two token
  requests follow each other, and none is followed by a sleep. \<open>settled evs\<close>: moreover
  the last event is no token request, so that every token request is directly followed by
  the request it was made for.
\<close>

fun isToken :: "event \<Rightarrow> bool" where
  "isToken (Http ep q) = (ep = TokenExchange)"
| "isToken (SetTimeout ms) = False"

fun isStageRequest :: "event \<Rightarrow> bool" where
  "isStageRequest (Http ep q) = (ep \<noteq> TokenExchange)"
| "isStageRequest (SetTimeout ms) = False"

primrec tokenFirst :: "event list \<Rightarrow> bool" where
  "tokenFirst [] = True"
| "tokenFirst (e # tr) =
     ((case tr of [] \<Rightarrow> True | e' # tr' \<Rightarrow> \<not> isToken e \<or> isStageRequest e') \<and> tokenFirst tr)"

definition settled :: "event list \<Rightarrow> bool" where
  "settled evs \<longleftrightarrow> tokenFirst evs \<and> (evs = [] \<or> \<not> isToken (last evs))"

text \<open>
  \<open>polling c E rec s n\<close>: after \<open>n\<close> rounds the polling stage started in \<open>s\<close> goes on
  with another round: the last status is not \<^verbatim>\<open>DONE\<close> and the loop's reading of the clock
  is within \<^verbatim>\<open>MAX_WAIT_TIME\<close> of the start time.
\<close>

definition polling ::
    "constants \<Rightarrow> environment \<Rightarrow> RecognitionResponse \<Rightarrow> state \<Rightarrow> nat \<Rightarrow> bool" where
  "polling c E rec s n =
     (case pollPrefix c E rec s n of
        None \<Rightarrow> False
      | Some (startTime, st, s1) \<Rightarrow>
          status st \<noteq> ''DONE'' \<and> clock E (ticks s1) - startTime \<le> MAX_WAIT_TIME c)"

text \<open>
  A clock that advances: whatever the time \<open>t0\<close>, from some reading on every reading is more
  than \<^verbatim>\<open>MAX_WAIT_TIME\<close> later than \<open>t0\<close>.
\<close>

definition advancing :: "constants \<Rightarrow> environment \<Rightarrow> bool" where
  "advancing c E \<longleftrightarrow> (\<forall>t0. \<exists>K. \<forall>k\<ge>K. MAX_WAIT_TIME c < clock E k - t0)"

section \<open>Scenarios\<close>

text \<open>
  Concrete constants, collaborators and client states on which the theorems below are
  evaluated. The values of the constants are examples. The collaborators follow the
  end-to-end scenario: every request succeeds and the download has one segment with the one
  fragment \<^verbatim>\<open>hello world\<close>; the clock, the token endpoint and the statuses vary, and in
  the last scenarios the file cannot be read or an endpoint rejects its requests.
\<close>

definition exampleConstants :: constants where
  "exampleConstants =
     \<lparr>MAX_WAIT_TIME = 60000, RECOGNITION_POLLING_DELAY = 1000, SPEECH_BASE_URL = ''BASE'',
      SPEECH_TOKEN_URL = ''TOKEN_URL'', TOKEN_SCOPE = ''SCOPE''\<rparr>"

definition exampleEnvironment ::
    "(nat \<Rightarrow> int) \<Rightarrow> (nat \<Rightarrow> string + SberSaluteToken option) \<Rightarrow> (nat \<Rightarrow> string) \<Rightarrow> environment" where
  "exampleEnvironment clk tokens statuses =
     \<lparr>clock = clk,
      uuid_v4 = (\<lambda>k. ''generated''),
      parseFile = (\<lambda>p. Inr \<lparr>sampleRate = Some 16000, numberOfChannels = Some 1\<rparr>),
      tokenServer = tokens,
      uploadServer = (\<lambda>k. Inr \<lparr>request_file_id = ''file''\<rparr>),
      recognizeServer = (\<lambda>k. Inr \<lparr>id' = ''job'', created_at = ''t0'', updated_at = ''t0'',
                                   status = ''NEW''\<rparr>),
      statusServer = (\<lambda>k. Inr \<lparr>id' = ''job'', created_at = ''t0'', updated_at = ''t1'',
                                status = statuses k, response_file_id = ''response''\<rparr>),
      downloadServer = (\<lambda>k. Inr [\<lparr>results =
                         [\<lparr>fragment.text = ''hello world'', normalized_text = ''hello world''\<rparr>]\<rparr>])\<rparr>"

definition exampleState :: "SberSaluteToken option \<Rightarrow> state" where
  "exampleState tok =
     \<lparr>ticks = 0, uuids = 0, trace = [], authKey = ''key'', token = tok, sessionId = ''session''\<rparr>"

definition exampleToken :: SberSaluteToken where
  "exampleToken = \<lparr>access_token = ''held'', expires_at = 1000000\<rparr>"

definition exampleRecognition :: RecognitionResponse where
  "exampleRecognition =
     \<lparr>id' = ''job'', created_at = ''t0'', updated_at = ''t0'', status = ''NEW''\<rparr>"

text \<open>The first status is \<^verbatim>\<open>DONE\<close> and the clock stands still.\<close>

definition doneEnvironment :: environment where
  "doneEnvironment =
     exampleEnvironment (\<lambda>k. 0) (\<lambda>k. Inr (Some exampleToken)) (\<lambda>k. ''DONE'')"

text \<open>The job never ends and every reading of the clock is twenty seconds later.\<close>

definition slowEnvironment :: environment where
  "slowEnvironment =
     exampleEnvironment (\<lambda>k. 20000 * int k) (\<lambda>k. Inr (Some exampleToken)) (\<lambda>k. ''RUNNING'')"

text \<open>The third status is \<^verbatim>\<open>DONE\<close> and the clock stands still.\<close>

definition threeStepEnvironment :: environment where
  "threeStepEnvironment =
     exampleEnvironment (\<lambda>k. 0) (\<lambda>k. Inr (Some exampleToken))
       (\<lambda>k. if k < 2 then ''RUNNING'' else ''DONE'')"

text \<open>The second status is \<^verbatim>\<open>DONE\<close>; the clock stands still for three readings and
  then reads 100 seconds later.\<close>

definition lateDoneEnvironment :: environment where
  "lateDoneEnvironment =
     exampleEnvironment (\<lambda>k. if k < 3 then 0 else 100000) (\<lambda>k. Inr (Some exampleToken))
       (\<lambda>k. if k < 1 then ''RUNNING'' else ''DONE'')"

text \<open>Every token the endpoint hands out expired long ago; the first status is
  \<^verbatim>\<open>DONE\<close>.\<close>

definition staleTokenEnvironment :: environment where
  "staleTokenEnvironment =
     exampleEnvironment (\<lambda>k. 100000)
       (\<lambda>k. Inr (Some \<lparr>access_token = ''short-lived'', expires_at = 0\<rparr>)) (\<lambda>k. ''DONE'')"

text \<open>The clock reads thirty seconds after the expiry of the example token; the token
  endpoint would hand out a new one.\<close>

definition afterExpiryEnvironment :: environment where
  "afterExpiryEnvironment =
     exampleEnvironment (\<lambda>k. 1030000)
       (\<lambda>k. Inr (Some \<lparr>access_token = ''new'', expires_at = 9000000\<rparr>)) (\<lambda>k. ''DONE'')"

text \<open>No token is ever handed out.\<close>

definition noTokenEnvironment :: environment where
  "noTokenEnvironment = exampleEnvironment (\<lambda>k. 0) (\<lambda>k. Inr None) (\<lambda>k. ''DONE'')"

text \<open>The audio file cannot be read.\<close>

definition unreadableEnvironment :: environment where
  "unreadableEnvironment = doneEnvironment\<lparr>parseFile := (\<lambda>p. Inl ''unreadable'')\<rparr>"

text \<open>The endpoint \<open>ep\<close> rejects every request with the reason \<^verbatim>\<open>refused\<close>; the others
  answer as in the scenario of the first \<^verbatim>\<open>DONE\<close>.\<close>

definition refusingEnvironment :: "endpoint \<Rightarrow> environment" where
  "refusingEnvironment ep =
     doneEnvironment
       \<lparr>uploadServer := (\<lambda>k. if ep = Upload then Inl ''refused'' else uploadServer doneEnvironment k),
        recognizeServer :=
          (\<lambda>k. if ep = AsyncRecognize then Inl ''refused'' else recognizeServer doneEnvironment k),
        statusServer := (\<lambda>k. if ep = TaskGet then Inl ''refused'' else statusServer doneEnvironment k),
        downloadServer :=
          (\<lambda>k. if ep = Download then Inl ''refused'' else downloadServer doneEnvironment k)\<rparr>"

text \<open>The job never ends and the clock stands still.\<close>

definition frozenEnvironment :: environment where
  "frozenEnvironment =
     exampleEnvironment (\<lambda>k. 0) (\<lambda>k. Inr (Some exampleToken)) (\<lambda>k. ''RUNNING'')"

text \<open>The first status query is answered with \<^verbatim>\<open>RUNNING\<close>, every later one is
  rejected; the clock stands still.\<close>

definition brokenPollEnvironment :: environment where
  "brokenPollEnvironment =
     frozenEnvironment
       \<lparr>statusServer := (\<lambda>k. if k = 0 then statusServer frozenEnvironment 0 else Inl ''refused'')\<rparr>"

section \<open>Traces\<close>

lemma actions_append [simp]: "actions (a @ b) = actions a @ actions b"
  by (induction a rule: actions.induct) simp_all

lemma requests_append [simp]: "requests ep (a @ b) = requests ep a @ requests ep b"
  by (simp add: requests_def)

lemma requests_Nil [simp]: "requests ep [] = []"
  by (simp add: requests_def)

lemma requests_Http [simp]:
  "requests ep (Http ep' q # tr) = (if ep' = ep then q # requests ep tr else requests ep tr)"
  by (simp add: requests_def)

lemma requests_SetTimeout [simp]: "requests ep (SetTimeout ms # tr) = requests ep tr"
  by (simp add: requests_def)

lemma requests_actions:
  "ep \<noteq> TokenExchange \<Longrightarrow>
   map url (requests ep evs) = [u. Query ep' u \<leftarrow> actions evs, ep' = ep]"
  by (induction evs rule: actions.induct) auto

lemma requests_no_actions:
  assumes "actions evs = []" and "ep \<noteq> TokenExchange"
  shows "requests ep evs = []"
  using requests_actions [OF assms(2), of evs] assms(1) by simp

lemma requests_absent':
  assumes "ep \<noteq> TokenExchange"
  shows "(\<forall>u. Query ep u \<notin> set (actions evs)) \<Longrightarrow> requests ep evs = []"
proof (induction evs)
  case Nil
  show ?case by simp
next
  case (Cons e evs)
  then show ?case using assms by (cases e) (auto split: if_splits)
qed

lemma requests_absent:
  assumes "ep \<noteq> TokenExchange" and "\<And>u. Query ep u \<notin> set (actions evs)"
  shows "requests ep evs = []"
  using requests_absent' [OF assms(1)] assms(2) by blast

lemma step_refl: "step s [] s"
  by (simp add: step_def)

lemma step_trans: "step s a s1 \<Longrightarrow> step s1 b s2 \<Longrightarrow> step s (a @ b) s2"
  by (auto simp add: step_def)

lemma step_dateNow: "step s [] (snd (dateNow E s))"
  by (simp add: step_def dateNow_def)

lemma step_delay: "step s [SetTimeout ms] (delay ms s)"
  by (simp add: step_def delay_def)

section \<open>The token accessor\<close>

text \<open>
  C6. A token that is held and within the freshness window (the clock has not passed its
  expiry minus \<^verbatim>\<open>MAX_WAIT_TIME\<close>, a duration, so not negative) is returned as it is: the
  accessor reads the clock once and changes nothing else, so it sends no request and the
  held token stays. In the witness a first call fetches a token and the second call, within
  the window, returns the same token with the one request of the first call in the trace.
\<close>

theorem getAccessToken_fresh:
  assumes "token s = Some t"
    and "0 \<le> MAX_WAIT_TIME c"
    and "clock E (ticks s) \<le> expires_at t - MAX_WAIT_TIME c"
  shows "getAccessToken c E s = (Inr t, s\<lparr>ticks := Suc (ticks s)\<rparr>)"
  using assms by (simp add: getAccessToken_def dateNow_def)

theorem getAccessToken_fresh_witness:
  "fst (getAccessToken exampleConstants doneEnvironment (exampleState None)) = Inr exampleToken
   \<and> token (snd (getAccessToken exampleConstants doneEnvironment (exampleState None)))
       = Some exampleToken
   \<and> 0 \<le> MAX_WAIT_TIME exampleConstants
   \<and> clock doneEnvironment
         (ticks (snd (getAccessToken exampleConstants doneEnvironment (exampleState None))))
       \<le> expires_at exampleToken - MAX_WAIT_TIME exampleConstants
   \<and> fst (getAccessToken exampleConstants doneEnvironment
         (snd (getAccessToken exampleConstants doneEnvironment (exampleState None))))
       = Inr exampleToken
   \<and> length (requests TokenExchange (trace (snd (getAccessToken exampleConstants doneEnvironment
         (snd (getAccessToken exampleConstants doneEnvironment (exampleState None)))))))
       = 1"
proof -
  let ?s1 = "snd (getAccessToken exampleConstants doneEnvironment (exampleState None))"
  have first: "fst (getAccessToken exampleConstants doneEnvironment (exampleState None))
      = Inr exampleToken"
    and held: "token ?s1 = Some exampleToken"
    and margin: "0 \<le> MAX_WAIT_TIME exampleConstants"
    and window: "clock doneEnvironment (ticks ?s1)
      \<le> expires_at exampleToken - MAX_WAIT_TIME exampleConstants"
    and one: "length (requests TokenExchange (trace ?s1)) = 1"
    by (simp_all add: getAccessToken_def updateAccessToken_def axios_def dateNow_def
        exampleConstants_def exampleEnvironment_def exampleState_def exampleToken_def
        doneEnvironment_def)
  from getAccessToken_fresh [OF held margin window] first held margin window one
  show ?thesis by simp
qed

text \<open>
  C9. Whenever the stored token is absent after a call of the accessor, the call has failed:
  with the error \<^verbatim>\<open>Failed to get access token\<close> when the token endpoint answered (its
  answer was no token), and with the rejection of the token request when the endpoint
  rejected it.
\<close>

theorem getAccessToken_no_token:
  assumes "token (snd (getAccessToken c E s)) = None"
  shows "fst (getAccessToken c E s) =
           Inl (case tokenServer E (length (requests TokenExchange (trace s))) of
                  Inl reason \<Rightarrow> AxiosError reason
                | Inr d \<Rightarrow> Error ''Failed to get access token'')"
  using assms
  by (auto simp add: getAccessToken_def dateNow_def updateAccessToken_def axios_def Let_def
      split: option.splits sum.splits if_splits)

theorem getAccessToken_no_token_witness:
  "token (snd (getAccessToken exampleConstants noTokenEnvironment (exampleState None))) = None
   \<and> fst (getAccessToken exampleConstants noTokenEnvironment (exampleState None))
       = Inl (Error ''Failed to get access token'')
   \<and> length (requests TokenExchange
         (trace (snd (getAccessToken exampleConstants noTokenEnvironment (exampleState None))))) = 1"
proof -
  have absent:
    "token (snd (getAccessToken exampleConstants noTokenEnvironment (exampleState None))) = None"
    and one: "length (requests TokenExchange
         (trace (snd (getAccessToken exampleConstants noTokenEnvironment (exampleState None))))) = 1"
    by (simp_all add: getAccessToken_def updateAccessToken_def axios_def dateNow_def
        exampleConstants_def exampleEnvironment_def exampleState_def noTokenEnvironment_def)
  from getAccessToken_no_token [OF absent] absent one show ?thesis
    by (simp add: noTokenEnvironment_def exampleEnvironment_def exampleState_def)
qed

text \<open>
  C1. The code compares the expiry with the clock minus \<^verbatim>\<open>MAX_WAIT_TIME\<close>, so the margin
  lies after the expiry and not before it. Here the margin is one minute and the held token
  expired thirty seconds ago: its expiry minus the margin has passed, yet the accessor
  returns it, reads the clock and does nothing else, so it sends no request.
\<close>

theorem getAccessToken_keeps_expired_token:
  "expires_at exampleToken - MAX_WAIT_TIME exampleConstants
     < clock afterExpiryEnvironment (ticks (exampleState (Some exampleToken)))
   \<and> expires_at exampleToken
     < clock afterExpiryEnvironment (ticks (exampleState (Some exampleToken)))
   \<and> getAccessToken exampleConstants afterExpiryEnvironment (exampleState (Some exampleToken))
       = (Inr exampleToken, (exampleState (Some exampleToken))\<lparr>ticks := 1\<rparr>)
   \<and> trace ((exampleState (Some exampleToken))\<lparr>ticks := 1\<rparr>) = []"
  by (simp add: getAccessToken_def dateNow_def exampleState_def exampleConstants_def
      exampleEnvironment_def exampleToken_def afterExpiryEnvironment_def)

lemma getAccessToken_effect:
  assumes "getAccessToken c E s = (r, s')"
  shows "\<exists>evs. step s evs s' \<and> actions evs = [] \<and>
           (case r of Inl e \<Rightarrow> failure E (trace s') e | Inr t \<Rightarrow> token s' = Some t)"
proof -
  let ?q = "\<lparr>url = SPEECH_TOKEN_URL c, method = ''POST'',
      headers = [(''Content-Type'', ''application/x-www-form-urlencoded''),
                 (''RqUID'', sessionId s), (''Authorization'', ''Basic '' @ authKey s)],
      data = QsStringify [(''scope'', TOKEN_SCOPE c)], maxBodyLength = Default,
      rejectUnauthorized = False\<rparr>"
  have rej: "tokenServer E (length (requests TokenExchange (trace s))) = Inl x \<Longrightarrow>
      failure E (trace s @ [Http TokenExchange ?q]) (AxiosError x)" for x
    unfolding failure_def rejection_def by (intro disjI2 exI conjI) (auto)
  from assms consider "s' = s\<lparr>ticks := Suc (ticks s)\<rparr> \<and> (\<exists>t. r = Inr t \<and> token s = Some t)"
    | "trace s' = trace s @ [Http TokenExchange ?q] \<and> ticks s \<le> ticks s' \<and> uuids s' = uuids s
       \<and> authKey s' = authKey s \<and> sessionId s' = sessionId s
       \<and> (case r of Inl e \<Rightarrow> (e = Error ''Failed to get access token'' \<or>
             (\<exists>x. e = AxiosError x \<and> tokenServer E (length (requests TokenExchange (trace s))) = Inl x))
           | Inr t \<Rightarrow> token s' = Some t)"
    by (auto simp add: getAccessToken_def updateAccessToken_def axios_def dateNow_def Let_def
        split: option.splits sum.splits if_splits)
  then show ?thesis
  proof cases
    case 1
    then have "step s [] s'" by (simp add: step_def)
    with 1 show ?thesis by (intro exI [of _ "[]"]) auto
  next
    case 2
    then have "step s [Http TokenExchange ?q] s'" by (simp add: step_def)
    moreover have "case r of Inl e \<Rightarrow> failure E (trace s') e | Inr t \<Rightarrow> token s' = Some t"
      using 2 rej by (auto simp add: failure_def split: sum.splits)
    ultimately show ?thesis by (intro exI [of _ "[Http TokenExchange ?q]"]) simp
  qed
qed

section \<open>The requests of the stages\<close>

text \<open>
  C2. Whenever the upload request is sent (the token accessor succeeded), it is one request
  and its body is the path itself, a string of characters, whatever the file at that path
  holds: the code never reads the file's bytes.
\<close>

theorem uploadFileForRecognition_body_is_path:
  "map data (requests Upload (trace (snd (uploadFileForRecognition c E audioFilePath s))))
     = map data (requests Upload (trace s))
       @ (case fst (getAccessToken c E s) of Inl e \<Rightarrow> [] | Inr t \<Rightarrow> [Raw audioFilePath])"
  by (auto simp add: uploadFileForRecognition_def getAccessToken_def updateAccessToken_def axios_def
      dateNow_def requests_def split: option.splits sum.splits prod.splits)

lemma stage_effect:
  fixes server :: "nat \<Rightarrow> string + 'a"
  assumes run: "(case getAccessToken c E s of
                   (Inl e, s1) \<Rightarrow> (Inl e, s1)
                 | (Inr t, s1) \<Rightarrow> axios ep (cfg t) server s1) = (r, s')"
    and ep: "ep \<noteq> TokenExchange"
    and url: "\<And>t. url (cfg t) = u"
    and rej: "\<And>k. rejection E ep k = (case server k of Inl x \<Rightarrow> Some x | Inr d \<Rightarrow> None)"
  shows "\<exists>evs. step s evs s' \<and>
           (case r of
              Inl e \<Rightarrow> failure E (trace s') e \<and> (actions evs = [] \<or> actions evs = [Query ep u])
            | Inr v \<Rightarrow> actions evs = [Query ep u] \<and> server (length (requests ep (trace s))) = Inr v)"
proof -
  obtain r1 s1 where acc: "getAccessToken c E s = (r1, s1)"
    by (cases "getAccessToken c E s")
  from getAccessToken_effect [OF acc] obtain evs1 where
    st1: "step s evs1 s1" and act1: "actions evs1 = []"
    and out1: "case r1 of Inl e \<Rightarrow> failure E (trace s1) e | Inr t \<Rightarrow> token s1 = Some t"
    by blast
  show ?thesis
  proof (cases r1)
    case (Inl e)
    with run acc have "r = Inl e" "s' = s1" by simp_all
    with st1 act1 out1 Inl show ?thesis by (intro exI [of _ evs1]) simp
  next
    case (Inr t)
    let ?k = "length (requests ep (trace s1))"
    from run acc Inr have r: "r = (case server ?k of Inl reason \<Rightarrow> Inl (AxiosError reason) | Inr d \<Rightarrow> Inr d)"
      and s': "s' = s1\<lparr>trace := trace s1 @ [Http ep (cfg t)]\<rparr>"
      by (simp_all add: axios_def)
    from st1 have tr1: "trace s1 = trace s @ evs1" by (simp add: step_def)
    have k: "?k = length (requests ep (trace s))"
      using requests_no_actions [OF act1 ep] by (simp add: tr1)
    have "step s1 [Http ep (cfg t)] s'"
      using ep by (simp add: s' step_def)
    with st1 have st: "step s (evs1 @ [Http ep (cfg t)]) s'" by (rule step_trans)
    have act: "actions (evs1 @ [Http ep (cfg t)]) = [Query ep u]"
      using ep act1 url by simp
    show ?thesis
    proof (cases "server ?k")
      case (Inl reason)
      then have "rejection E ep (length (requests ep (trace s1))) = Some reason"
        by (simp add: rej)
      then have "failure E (trace s') (AxiosError reason)"
        unfolding failure_def s' by (intro disjI2 exI [of _ "trace s1"] exI [of _ ep]
            exI [of _ "cfg t"] exI [of _ reason]) simp
      with Inl r st act show ?thesis by (intro exI [of _ "evs1 @ [Http ep (cfg t)]"]) simp
    next
      case (Inr d)
      with r st act k show ?thesis by (intro exI [of _ "evs1 @ [Http ep (cfg t)]"]) simp
    qed
  qed
qed

lemma uploadFileForRecognition_effect:
  assumes "uploadFileForRecognition c E audioFilePath s = (r, s')"
  shows "\<exists>evs. step s evs s' \<and>
           (case r of
              Inl e \<Rightarrow> failure E (trace s') e \<and>
                (actions evs = [] \<or> actions evs = [Query Upload (SPEECH_BASE_URL c @ ''/data:upload'')])
            | Inr v \<Rightarrow>
                actions evs = [Query Upload (SPEECH_BASE_URL c @ ''/data:upload'')] \<and>
                uploadServer E (length (requests Upload (trace s))) = Inr v)"
  by (rule stage_effect [OF assms [unfolded uploadFileForRecognition_def]])
     (simp_all add: rejection_def)

lemma startRecognition_effect:
  assumes "startRecognition c E uploadedFile fileMetadata encoding s = (r, s')"
  shows "\<exists>evs. step s evs s' \<and>
           (case r of
              Inl e \<Rightarrow> failure E (trace s') e \<and>
                (actions evs = [] \<or>
                 actions evs = [Query AsyncRecognize (SPEECH_BASE_URL c @ ''/speech:async_recognize'')])
            | Inr v \<Rightarrow>
                actions evs = [Query AsyncRecognize (SPEECH_BASE_URL c @ ''/speech:async_recognize'')] \<and>
                recognizeServer E (length (requests AsyncRecognize (trace s))) = Inr v)"
  by (rule stage_effect [OF assms [unfolded startRecognition_def Let_def]])
     (simp_all add: rejection_def)

lemma getRecognitionStatus_effect:
  assumes "getRecognitionStatus c E rec s = (r, s')"
  shows "\<exists>evs. step s evs s' \<and>
           (case r of
              Inl e \<Rightarrow> failure E (trace s') e \<and>
                (actions evs = [] \<or>
                 actions evs = [Query TaskGet (SPEECH_BASE_URL c @ ''/task:get?id='' @ id' rec)])
            | Inr v \<Rightarrow>
                actions evs = [Query TaskGet (SPEECH_BASE_URL c @ ''/task:get?id='' @ id' rec)] \<and>
                statusServer E (length (requests TaskGet (trace s))) = Inr v)"
  by (rule stage_effect [OF assms [unfolded getRecognitionStatus_def]])
     (simp_all add: rejection_def)

lemma getRecognitionResult_effect:
  assumes "getRecognitionResult c E st s = (r, s')"
  shows "\<exists>evs. step s evs s' \<and>
           (case r of
              Inl e \<Rightarrow> failure E (trace s') e \<and>
                (actions evs = [] \<or>
                 actions evs = [Query Download (SPEECH_BASE_URL c @ ''/data:download?response_file_id=''
                                  @ response_file_id st)])
            | Inr v \<Rightarrow>
                actions evs = [Query Download (SPEECH_BASE_URL c @ ''/data:download?response_file_id=''
                                  @ response_file_id st)] \<and>
                downloadServer E (length (requests Download (trace s))) = Inr v)"
  by (rule stage_effect [OF assms [unfolded getRecognitionResult_def]])
     (simp_all add: rejection_def)

text \<open>Where the token requests stand among the events of the accessor and of a stage.\<close>

lemma tokenFirst_append:
  "tokenFirst a \<Longrightarrow> tokenFirst b \<Longrightarrow>
   a = [] \<or> \<not> isToken (last a) \<or> b = [] \<or> isStageRequest (hd b) \<Longrightarrow> tokenFirst (a @ b)"
proof (induction a)
  case Nil
  then show ?case by simp
next
  case (Cons e a)
  show ?case
  proof (cases a)
    case Nil
    with Cons.prems show ?thesis by (cases b) auto
  next
    case (Cons e' a')
    with Cons.prems Cons.IH show ?thesis by auto
  qed
qed

lemma settled_Nil: "settled []"
  by (simp add: settled_def)

lemma settled_SetTimeout: "settled [SetTimeout ms]"
  by (simp add: settled_def)

lemma settled_append: "settled a \<Longrightarrow> settled b \<Longrightarrow> settled (a @ b)"
  unfolding settled_def using tokenFirst_append [of a b] by (cases "b = []") auto

lemma settled_tokenFirst_append: "settled a \<Longrightarrow> tokenFirst b \<Longrightarrow> tokenFirst (a @ b)"
  unfolding settled_def using tokenFirst_append [of a b] by auto

lemma settled_imp_tokenFirst: "settled a \<Longrightarrow> tokenFirst a"
  by (simp add: settled_def)

lemma getAccessToken_events:
  assumes "getAccessToken c E s = (r, s')"
  shows "trace s' = trace s \<or> (\<exists>q. trace s' = trace s @ [Http TokenExchange q])"
  using assms
  by (auto simp add: getAccessToken_def updateAccessToken_def axios_def dateNow_def Let_def
      split: option.splits sum.splits if_splits)

lemma stage_events:
  fixes server :: "nat \<Rightarrow> string + 'a"
  assumes run: "(case getAccessToken c E s of
                   (Inl e, s1) \<Rightarrow> (Inl e, s1)
                 | (Inr t, s1) \<Rightarrow> axios ep (cfg t) server s1) = (r, s')"
    and ep: "ep \<noteq> TokenExchange"
  shows "\<exists>evs. trace s' = trace s @ evs \<and> tokenFirst evs \<and> (\<forall>v. r = Inr v \<longrightarrow> settled evs)"
proof -
  obtain r1 s1 where acc: "getAccessToken c E s = (r1, s1)"
    by (cases "getAccessToken c E s")
  from getAccessToken_events [OF acc] obtain tok where
    tr1: "trace s1 = trace s @ tok" and tok: "tok = [] \<or> (\<exists>q. tok = [Http TokenExchange q])"
    by auto
  show ?thesis
  proof (cases r1)
    case (Inl e)
    with run acc have "r = Inl e" "s' = s1" by simp_all
    with tr1 tok show ?thesis by (intro exI [of _ tok]) auto
  next
    case (Inr t)
    with run acc have "trace s' = trace s1 @ [Http ep (cfg t)]"
      by (auto simp add: axios_def)
    with tr1 have "trace s' = trace s @ (tok @ [Http ep (cfg t)])" by simp
    moreover have "settled (tok @ [Http ep (cfg t)])"
      using tok ep by (auto simp add: settled_def)
    ultimately show ?thesis by (intro exI [of _ "tok @ [Http ep (cfg t)]"]) (simp add: settled_def)
  qed
qed

lemma uploadFileForRecognition_events:
  assumes "uploadFileForRecognition c E audioFilePath s = (r, s')"
  shows "\<exists>evs. trace s' = trace s @ evs \<and> tokenFirst evs \<and> (\<forall>v. r = Inr v \<longrightarrow> settled evs)"
  by (rule stage_events [OF assms [unfolded uploadFileForRecognition_def]]) simp

lemma startRecognition_events:
  assumes "startRecognition c E uploadedFile fileMetadata encoding s = (r, s')"
  shows "\<exists>evs. trace s' = trace s @ evs \<and> tokenFirst evs \<and> (\<forall>v. r = Inr v \<longrightarrow> settled evs)"
  by (rule stage_events [OF assms [unfolded startRecognition_def Let_def]]) simp

lemma getRecognitionStatus_events:
  assumes "getRecognitionStatus c E rec s = (r, s')"
  shows "\<exists>evs. trace s' = trace s @ evs \<and> tokenFirst evs \<and> (\<forall>v. r = Inr v \<longrightarrow> settled evs)"
  by (rule stage_events [OF assms [unfolded getRecognitionStatus_def]]) simp

lemma getRecognitionResult_events:
  assumes "getRecognitionResult c E st s = (r, s')"
  shows "\<exists>evs. trace s' = trace s @ evs \<and> tokenFirst evs \<and> (\<forall>v. r = Inr v \<longrightarrow> settled evs)"
  by (rule stage_events [OF assms [unfolded getRecognitionResult_def]]) simp

lemma getAccessToken_succeeds:
  assumes "\<forall>k. \<exists>t. tokenServer E k = Inr (Some t)"
  shows "\<exists>t s'. getAccessToken c E s = (Inr t, s')"
proof -
  from assms obtain t where "tokenServer E (length (requests TokenExchange (trace s))) = Inr (Some t)"
    by blast
  then show ?thesis
    by (auto simp add: getAccessToken_def updateAccessToken_def axios_def dateNow_def Let_def
        split: option.splits)
qed

lemma getRecognitionStatus_answered:
  assumes tokens: "\<forall>k. \<exists>t. tokenServer E k = Inr (Some t)"
    and answers: "\<forall>k. \<exists>st. statusServer E k = Inr st \<and> status st \<noteq> ''DONE''"
  shows "\<exists>st s'. getRecognitionStatus c E rec s = (Inr st, s') \<and> status st \<noteq> ''DONE''"
proof -
  from getAccessToken_succeeds [OF tokens] obtain t s1 where
    acc: "getAccessToken c E s = (Inr t, s1)" by blast
  from answers obtain st where
    "statusServer E (length (requests TaskGet (trace s1))) = Inr st" "status st \<noteq> ''DONE''"
    by blast
  with acc show ?thesis by (simp add: getRecognitionStatus_def axios_def)
qed

lemma uploadFileForRecognition_token_fails:
  "getAccessToken c E s = (Inl e, s') \<Longrightarrow> uploadFileForRecognition c E audioFilePath s = (Inl e, s')"
  by (simp add: uploadFileForRecognition_def)

lemma startRecognition_token_fails:
  "getAccessToken c E s = (Inl e, s') \<Longrightarrow>
   startRecognition c E uploadedFile fileMetadata encoding s = (Inl e, s')"
  by (simp add: startRecognition_def)

lemma getRecognitionStatus_token_fails:
  "getAccessToken c E s = (Inl e, s') \<Longrightarrow> getRecognitionStatus c E rec s = (Inl e, s')"
  by (simp add: getRecognitionStatus_def)

lemma getRecognitionResult_token_fails:
  "getAccessToken c E s = (Inl e, s') \<Longrightarrow> getRecognitionResult c E st s = (Inl e, s')"
  by (simp add: getRecognitionResult_def)

section \<open>The polling stage\<close>

lemma pollLoop_done:
  "status st = ''DONE'' \<Longrightarrow> pollLoop c E rec t0 st s = Some (Inr st, s)"
  by (subst pollLoop.simps) simp

lemma pollLoop_timeout:
  "status st \<noteq> ''DONE'' \<Longrightarrow> MAX_WAIT_TIME c < clock E (ticks s) - t0 \<Longrightarrow>
   pollLoop c E rec t0 st s
     = Some (Inl (Error ''Recognition timeout''), s\<lparr>ticks := Suc (ticks s)\<rparr>)"
  by (subst pollLoop.simps) (simp add: dateNow_def)

lemma pollLoop_continue:
  "status st \<noteq> ''DONE'' \<Longrightarrow> \<not> MAX_WAIT_TIME c < clock E (ticks s) - t0 \<Longrightarrow>
   getRecognitionStatus c E rec (delay (RECOGNITION_POLLING_DELAY c) (snd (dateNow E s)))
     = (Inr st1, s2) \<Longrightarrow>
   pollLoop c E rec t0 st s = pollLoop c E rec t0 st1 s2"
  by (subst pollLoop.simps) (simp add: dateNow_def)

lemma pollLoop_effect:
  assumes "pollLoop c E rec t0 st s = Some y"
  shows "pollPost c E rec s y"
proof (rule pollLoop.raw_induct [where P = "\<lambda>c E rec t0 st s y. pollPost c E rec s y", OF _ assms])
  fix f c E rec t0 st s y
  assume IH: "\<And>c E rec (t0 :: int) (st :: RecognitionStatusResponse) s y.
    f c E rec t0 st s = Some y \<Longrightarrow> pollPost c E rec s y"
  assume body:
    "(if status st \<noteq> ''DONE'' then
        (case dateNow E s of
           (now, s1) \<Rightarrow>
             if MAX_WAIT_TIME c < now - t0 then Some (Inl (Error ''Recognition timeout''), s1)
             else
               (case getRecognitionStatus c E rec (delay (RECOGNITION_POLLING_DELAY c) s1) of
                  (Inl e, s2) \<Rightarrow> Some (Inl e, s2)
                | (Inr st1, s2) \<Rightarrow> f c E rec t0 st1 s2))
      else Some (Inr st, s)) = Some y"
  let ?d = "RECOGNITION_POLLING_DELAY c"
  let ?u = "SPEECH_BASE_URL c @ ''/task:get?id='' @ id' rec"
  let ?s1 = "snd (dateNow E s)"
  show "pollPost c E rec s y"
  proof (cases "status st = ''DONE''")
    case True
    with body have "y = (Inr st, s)" by simp
    with True show ?thesis
      unfolding pollPost_def by (intro exI [of _ "[]"] exI [of _ 0]) (simp add: step_refl)
  next
    case notDone: False
    show ?thesis
    proof (cases "MAX_WAIT_TIME c < fst (dateNow E s) - t0")
      case True
      with notDone body have "y = (Inl (Error ''Recognition timeout''), ?s1)"
        by (simp add: case_prod_beta)
      then show ?thesis
        unfolding pollPost_def
        by (intro exI [of _ "[]"] exI [of _ 0]) (simp add: step_dateNow)
    next
      case inTime: False
      obtain r2 s2 where q: "getRecognitionStatus c E rec (delay ?d ?s1) = (r2, s2)"
        by (cases "getRecognitionStatus c E rec (delay ?d ?s1)")
      from getRecognitionStatus_effect [OF q] obtain evs2 where
        st2: "step (delay ?d ?s1) evs2 s2"
        and out2: "case r2 of
              Inl e \<Rightarrow> failure E (trace s2) e \<and> (actions evs2 = [] \<or> actions evs2 = [Query TaskGet ?u])
            | Inr v \<Rightarrow> actions evs2 = [Query TaskGet ?u] \<and>
                statusServer E (length (requests TaskGet (trace (delay ?d ?s1)))) = Inr v"
        by blast
      have st01: "step s ([] @ [SetTimeout ?d]) (delay ?d ?s1)"
        by (rule step_trans [OF step_dateNow step_delay])
      have st02: "step s (([] @ [SetTimeout ?d]) @ evs2) s2"
        by (rule step_trans [OF st01 st2])
      show ?thesis
      proof (cases r2)
        case (Inl e)
        with notDone inTime q body have y: "y = (Inl e, s2)"
          by (simp add: case_prod_beta)
        from out2 Inl have "failure E (trace s2) e"
          and "actions evs2 = [] \<or> actions evs2 = [Query TaskGet ?u]" by simp_all
        with st02 y show ?thesis
          unfolding pollPost_def
          by (intro exI [of _ "([] @ [SetTimeout ?d]) @ evs2"] exI [of _ 0]) auto
      next
        case (Inr st1)
        with notDone inTime q body have "f c E rec t0 st1 s2 = Some y"
          by (simp add: case_prod_beta)
        then have "pollPost c E rec s2 y" by (rule IH)
        then obtain evs3 n where st3: "step s2 evs3 (snd y)"
          and out3: "case fst y of
             Inl e \<Rightarrow> (e = Error ''Recognition timeout'' \<or> failure E (trace (snd y)) e) \<and>
               prefix (actions evs3) (concat (replicate (Suc n) [Sleep ?d, Query TaskGet ?u]))
           | Inr st \<Rightarrow> status st = ''DONE'' \<and>
               actions evs3 = concat (replicate n [Sleep ?d, Query TaskGet ?u])"
          unfolding pollPost_def by blast
        from st02 st3 have st: "step s ((([] @ [SetTimeout ?d]) @ evs2) @ evs3) (snd y)"
          by (rule step_trans)
        from out2 Inr have act2: "actions evs2 = [Query TaskGet ?u]" by simp
        show ?thesis
          unfolding pollPost_def
          using st out3 act2
          by (intro exI [of _ "(([] @ [SetTimeout ?d]) @ evs2) @ evs3"] exI [of _ "Suc n"])
             (auto split: sum.splits)
      qed
    qed
  qed
qed

lemma pollPost_pair:
  "pollPost c E rec s (r, s') \<longleftrightarrow>
     (\<exists>evs n. step s evs s' \<and>
        (case r of
           Inl e \<Rightarrow> (e = Error ''Recognition timeout'' \<or> failure E (trace s') e) \<and>
             prefix (actions evs)
               (concat (replicate (Suc n)
                  [Sleep (RECOGNITION_POLLING_DELAY c),
                   Query TaskGet (SPEECH_BASE_URL c @ ''/task:get?id='' @ id' rec)]))
         | Inr st \<Rightarrow> status st = ''DONE'' \<and>
             actions evs =
               concat (replicate n
                  [Sleep (RECOGNITION_POLLING_DELAY c),
                   Query TaskGet (SPEECH_BASE_URL c @ ''/task:get?id='' @ id' rec)])))"
  unfolding pollPost_def fst_conv snd_conv by (rule refl)

lemma pollingStage_effect:
  assumes "pollingStage c E rec s = Some (r, s')"
  shows "\<exists>evs n. step s evs s' \<and>
     (case r of
        Inl e \<Rightarrow> (e = Error ''Recognition timeout'' \<or> failure E (trace s') e) \<and>
          prefix (actions evs)
            (Query TaskGet (SPEECH_BASE_URL c @ ''/task:get?id='' @ id' rec)
             # concat (replicate n
                 [Sleep (RECOGNITION_POLLING_DELAY c),
                  Query TaskGet (SPEECH_BASE_URL c @ ''/task:get?id='' @ id' rec)]))
      | Inr st \<Rightarrow> status st = ''DONE'' \<and>
          actions evs =
            Query TaskGet (SPEECH_BASE_URL c @ ''/task:get?id='' @ id' rec)
            # concat (replicate n
                [Sleep (RECOGNITION_POLLING_DELAY c),
                 Query TaskGet (SPEECH_BASE_URL c @ ''/task:get?id='' @ id' rec)]))"
proof -
  let ?d = "RECOGNITION_POLLING_DELAY c"
  let ?u = "SPEECH_BASE_URL c @ ''/task:get?id='' @ id' rec"
  let ?s1 = "snd (dateNow E s)"
  obtain r2 s2 where q: "getRecognitionStatus c E rec ?s1 = (r2, s2)"
    by (cases "getRecognitionStatus c E rec ?s1")
  from getRecognitionStatus_effect [OF q] obtain evs2 where
    st2: "step ?s1 evs2 s2"
    and out2: "case r2 of
          Inl e \<Rightarrow> failure E (trace s2) e \<and> (actions evs2 = [] \<or> actions evs2 = [Query TaskGet ?u])
        | Inr v \<Rightarrow> actions evs2 = [Query TaskGet ?u] \<and>
            statusServer E (length (requests TaskGet (trace ?s1))) = Inr v"
    by blast
  have st02: "step s ([] @ evs2) s2"
    by (rule step_trans [OF step_dateNow st2])
  show ?thesis
  proof (cases r2)
    case (Inl e)
    with assms q have "r = Inl e" "s' = s2"
      by (simp_all add: pollingStage_def case_prod_beta)
    with out2 Inl st02 show ?thesis
      by (intro exI [of _ "[] @ evs2"] exI [of _ 0]) auto
  next
    case (Inr st1)
    with assms q have "pollLoop c E rec (fst (dateNow E s)) st1 s2 = Some (r, s')"
      by (simp add: pollingStage_def case_prod_beta)
    from pollLoop_effect [OF this] obtain evs3 n where st3: "step s2 evs3 s'"
      and out3: "case r of
         Inl e \<Rightarrow> (e = Error ''Recognition timeout'' \<or> failure E (trace s') e) \<and>
           prefix (actions evs3) (concat (replicate (Suc n) [Sleep ?d, Query TaskGet ?u]))
       | Inr st \<Rightarrow> status st = ''DONE'' \<and>
           actions evs3 = concat (replicate n [Sleep ?d, Query TaskGet ?u])"
      unfolding pollPost_pair by blast
    have st: "step s (([] @ evs2) @ evs3) s'"
      by (rule step_trans [OF st02 st3])
    from out2 Inr have act2: "actions evs2 = [Query TaskGet ?u]" by simp
    show ?thesis
    proof (cases r)
      case (Inl e)
      with st out3 act2 show ?thesis
        by (intro exI [of _ "([] @ evs2) @ evs3"] exI [of _ "Suc n"]) simp
    next
      case (Inr st')
      with st out3 act2 show ?thesis
        by (intro exI [of _ "([] @ evs2) @ evs3"] exI [of _ n]) simp
    qed
  qed
qed

lemma concat_replicate_snoc: "concat (replicate n xs) @ xs = concat (replicate (Suc n) xs)"
  by (induction n) simp_all

lemma pollPrefix_run:
  "pollPrefix c E rec s n = Some (t0, st, s1) \<Longrightarrow>
   pollingStage c E rec s = pollLoop c E rec t0 st s1 \<and> t0 = clock E (ticks s) \<and>
   (\<exists>evs. step s evs s1 \<and>
      actions evs = Query TaskGet (SPEECH_BASE_URL c @ ''/task:get?id='' @ id' rec)
        # concat (replicate n
            [Sleep (RECOGNITION_POLLING_DELAY c),
             Query TaskGet (SPEECH_BASE_URL c @ ''/task:get?id='' @ id' rec)]))"
proof (induction n arbitrary: t0 st s1)
  case 0
  let ?s0 = "snd (dateNow E s)"
  from 0 have q: "getRecognitionStatus c E rec ?s0 = (Inr st, s1)"
    and t0: "t0 = fst (dateNow E s)"
    by (auto split: prod.splits sum.splits)
  from getRecognitionStatus_effect [OF q] obtain evs where
    st: "step ?s0 evs s1"
    and act: "actions evs = [Query TaskGet (SPEECH_BASE_URL c @ ''/task:get?id='' @ id' rec)]"
    by auto
  from step_trans [OF step_dateNow st] act have
    "\<exists>evs. step s evs s1 \<and>
       actions evs = [Query TaskGet (SPEECH_BASE_URL c @ ''/task:get?id='' @ id' rec)]"
    by auto
  moreover from q t0 have "pollingStage c E rec s = pollLoop c E rec t0 st s1"
    by (simp add: pollingStage_def case_prod_beta)
  moreover from t0 have "t0 = clock E (ticks s)" by (simp add: dateNow_def)
  ultimately show ?case by simp
next
  case (Suc n)
  let ?d = "RECOGNITION_POLLING_DELAY c"
  let ?u = "SPEECH_BASE_URL c @ ''/task:get?id='' @ id' rec"
  from Suc.prems obtain st0 s0 where
    pre: "pollPrefix c E rec s n = Some (t0, st0, s0)"
    and notDone: "status st0 \<noteq> ''DONE''"
    and inTime: "\<not> MAX_WAIT_TIME c < clock E (ticks s0) - t0"
    and q: "getRecognitionStatus c E rec (delay ?d (snd (dateNow E s0))) = (Inr st, s1)"
    by (auto simp add: dateNow_def split: option.splits if_splits sum.splits prod.splits)
  from Suc.IH [OF pre] obtain evs0 where
    run: "pollingStage c E rec s = pollLoop c E rec t0 st0 s0"
    and t0: "t0 = clock E (ticks s)"
    and st0: "step s evs0 s0"
    and act0: "actions evs0 = Query TaskGet ?u # concat (replicate n [Sleep ?d, Query TaskGet ?u])"
    by auto
  from getRecognitionStatus_effect [OF q] obtain evs1 where
    st1: "step (delay ?d (snd (dateNow E s0))) evs1 s1"
    and act1: "actions evs1 = [Query TaskGet ?u]"
    by auto
  have "step s0 ([] @ [SetTimeout ?d]) (delay ?d (snd (dateNow E s0)))"
    by (rule step_trans [OF step_dateNow step_delay])
  from step_trans [OF st0 step_trans [OF this st1]]
  have "step s (evs0 @ ([] @ [SetTimeout ?d]) @ evs1) s1" .
  moreover have "actions (evs0 @ ([] @ [SetTimeout ?d]) @ evs1)
      = Query TaskGet ?u # concat (replicate (Suc n) [Sleep ?d, Query TaskGet ?u])"
    using concat_replicate_snoc [of n "[Sleep ?d, Query TaskGet ?u]"]
    by (simp add: act0 act1)
  moreover have "pollingStage c E rec s = pollLoop c E rec t0 st s1"
    using run pollLoop_continue [OF notDone inTime q] by simp
  ultimately show ?case using t0 by blast
qed

text \<open>
  How the loop ends: a failed status query ends it with the error of the query; on a
  clock that advances it returns; and it returns only if some round does not go on.
\<close>

lemma pollLoop_fail:
  "status st \<noteq> ''DONE'' \<Longrightarrow> \<not> MAX_WAIT_TIME c < clock E (ticks s) - t0 \<Longrightarrow>
   getRecognitionStatus c E rec (delay (RECOGNITION_POLLING_DELAY c) (snd (dateNow E s)))
     = (Inl e, s2) \<Longrightarrow>
   pollLoop c E rec t0 st s = Some (Inl e, s2)"
  by (subst pollLoop.simps) (simp add: dateNow_def)

lemma pollLoop_terminates:
  assumes late: "\<forall>k\<ge>K. MAX_WAIT_TIME c < clock E k - t0"
  shows "\<exists>y. pollLoop c E rec t0 st s = Some y"
proof (induction "K - ticks s" arbitrary: st s rule: less_induct)
  case less
  show ?case
  proof (cases "status st = ''DONE''")
    case True
    then show ?thesis by (simp add: pollLoop_done)
  next
    case notDone: False
    show ?thesis
    proof (cases "MAX_WAIT_TIME c < clock E (ticks s) - t0")
      case True
      with notDone show ?thesis by (simp add: pollLoop_timeout)
    next
      case inTime: False
      with late have before: "ticks s < K" by (meson not_le_imp_less)
      let ?s1 = "delay (RECOGNITION_POLLING_DELAY c) (snd (dateNow E s))"
      obtain r2 s2 where q: "getRecognitionStatus c E rec ?s1 = (r2, s2)"
        by (cases "getRecognitionStatus c E rec ?s1")
      show ?thesis
      proof (cases r2)
        case (Inl e)
        with q pollLoop_fail [OF notDone inTime] show ?thesis by simp
      next
        case (Inr st1)
        from getRecognitionStatus_effect [OF q] obtain evs where "step ?s1 evs s2" by blast
        then have "Suc (ticks s) \<le> ticks s2" by (simp add: step_def delay_def dateNow_def)
        with before have "K - ticks s2 < K - ticks s" by simp
        from less [OF this] obtain y where "pollLoop c E rec t0 st1 s2 = Some y" by blast
        with q Inr pollLoop_continue [OF notDone inTime] show ?thesis by simp
      qed
    qed
  qed
qed

lemma pollingStage_terminates:
  assumes "advancing c E"
  shows "\<exists>y. pollingStage c E rec s = Some y"
proof -
  from assms obtain K where late: "\<forall>k\<ge>K. MAX_WAIT_TIME c < clock E k - fst (dateNow E s)"
    unfolding advancing_def by blast
  obtain r2 s2 where q: "getRecognitionStatus c E rec (snd (dateNow E s)) = (r2, s2)"
    by (cases "getRecognitionStatus c E rec (snd (dateNow E s))")
  show ?thesis
  proof (cases r2)
    case (Inl e)
    with q show ?thesis by (simp add: pollingStage_def case_prod_beta)
  next
    case (Inr st1)
    with q pollLoop_terminates [OF late] show ?thesis
      by (simp add: pollingStage_def case_prod_beta)
  qed
qed

lemma pollLoop_events:
  assumes "pollLoop c E rec t0 st s = Some y"
  shows "\<exists>evs. trace (snd y) = trace s @ evs \<and> tokenFirst evs \<and>
           (\<forall>v. fst y = Inr v \<longrightarrow> settled evs)"
proof (rule pollLoop.raw_induct [where P = "\<lambda>c E rec t0 st s y.
    \<exists>evs. trace (snd y) = trace s @ evs \<and> tokenFirst evs \<and> (\<forall>v. fst y = Inr v \<longrightarrow> settled evs)",
    OF _ assms])
  fix f c E rec t0 st s y
  assume IH: "\<And>(c :: constants) (E :: environment) (rec :: RecognitionResponse) (t0 :: int)
      (st :: RecognitionStatusResponse) (s :: state)
      (y :: (error + RecognitionStatusResponse) \<times> state).
    f c E rec t0 st s = Some y \<Longrightarrow>
    \<exists>evs. trace (snd y) = trace s @ evs \<and> tokenFirst evs \<and> (\<forall>v. fst y = Inr v \<longrightarrow> settled evs)"
  assume body:
    "(if status st \<noteq> ''DONE'' then
        (case dateNow E s of
           (now, s1) \<Rightarrow>
             if MAX_WAIT_TIME c < now - t0 then Some (Inl (Error ''Recognition timeout''), s1)
             else
               (case getRecognitionStatus c E rec (delay (RECOGNITION_POLLING_DELAY c) s1) of
                  (Inl e, s2) \<Rightarrow> Some (Inl e, s2)
                | (Inr st1, s2) \<Rightarrow> f c E rec t0 st1 s2))
      else Some (Inr st, s)) = Some y"
  let ?d = "RECOGNITION_POLLING_DELAY c"
  let ?s1 = "delay ?d (snd (dateNow E s))"
  have tr1: "trace ?s1 = trace s @ [SetTimeout ?d]"
    by (simp add: delay_def dateNow_def)
  show "\<exists>evs. trace (snd y) = trace s @ evs \<and> tokenFirst evs \<and> (\<forall>v. fst y = Inr v \<longrightarrow> settled evs)"
  proof (cases "status st = ''DONE''")
    case True
    with body have "y = (Inr st, s)" by simp
    then show ?thesis by (intro exI [of _ "[]"]) (simp add: settled_Nil)
  next
    case notDone: False
    show ?thesis
    proof (cases "MAX_WAIT_TIME c < fst (dateNow E s) - t0")
      case True
      with notDone body have "y = (Inl (Error ''Recognition timeout''), snd (dateNow E s))"
        by (simp add: case_prod_beta)
      then show ?thesis by (intro exI [of _ "[]"]) (simp add: dateNow_def)
    next
      case inTime: False
      obtain r2 s2 where q: "getRecognitionStatus c E rec ?s1 = (r2, s2)"
        by (cases "getRecognitionStatus c E rec ?s1")
      from getRecognitionStatus_events [OF q] obtain evs2 where
        tr2: "trace s2 = trace ?s1 @ evs2" and tf2: "tokenFirst evs2"
        and se2: "\<forall>v. r2 = Inr v \<longrightarrow> settled evs2"
        by blast
      from tr1 tr2 have tr02: "trace s2 = trace s @ ([SetTimeout ?d] @ evs2)" by simp
      show ?thesis
      proof (cases r2)
        case (Inl e)
        with notDone inTime q body have "y = (Inl e, s2)" by (simp add: case_prod_beta)
        with tr02 settled_tokenFirst_append [OF settled_SetTimeout tf2] show ?thesis
          by (intro exI [of _ "[SetTimeout ?d] @ evs2"]) simp
      next
        case (Inr st1)
        with notDone inTime q body have "f c E rec t0 st1 s2 = Some y"
          by (simp add: case_prod_beta)
        from IH [OF this] obtain evs3 where
          tr3: "trace (snd y) = trace s2 @ evs3" and tf3: "tokenFirst evs3"
          and se3: "\<forall>v. fst y = Inr v \<longrightarrow> settled evs3"
          by blast
        from se2 Inr have "settled evs2" by simp
        with settled_SetTimeout have s12: "settled ([SetTimeout ?d] @ evs2)"
          by (rule settled_append)
        from tr02 tr3 have "trace (snd y) = trace s @ (([SetTimeout ?d] @ evs2) @ evs3)" by simp
        moreover have "tokenFirst (([SetTimeout ?d] @ evs2) @ evs3)"
          by (rule settled_tokenFirst_append [OF s12 tf3])
        moreover have "\<forall>v. fst y = Inr v \<longrightarrow> settled (([SetTimeout ?d] @ evs2) @ evs3)"
          using se3 settled_append [OF s12] by blast
        ultimately show ?thesis by blast
      qed
    qed
  qed
qed

lemma pollingStage_events:
  assumes "pollingStage c E rec s = Some (r, s')"
  shows "\<exists>evs. trace s' = trace s @ evs \<and> tokenFirst evs \<and> (\<forall>v. r = Inr v \<longrightarrow> settled evs)"
proof -
  let ?s1 = "snd (dateNow E s)"
  have tr1: "trace ?s1 = trace s" by (simp add: dateNow_def)
  obtain r2 s2 where q: "getRecognitionStatus c E rec ?s1 = (r2, s2)"
    by (cases "getRecognitionStatus c E rec ?s1")
  from getRecognitionStatus_events [OF q] obtain evs2 where
    tr2: "trace s2 = trace ?s1 @ evs2" and tf2: "tokenFirst evs2"
    and se2: "\<forall>v. r2 = Inr v \<longrightarrow> settled evs2"
    by blast
  show ?thesis
  proof (cases r2)
    case (Inl e)
    with assms q have "r = Inl e" "s' = s2" by (simp_all add: pollingStage_def case_prod_beta)
    with tr1 tr2 tf2 show ?thesis by (intro exI [of _ evs2]) simp
  next
    case (Inr st1)
    with assms q have "pollLoop c E rec (fst (dateNow E s)) st1 s2 = Some (r, s')"
      by (simp add: pollingStage_def case_prod_beta)
    from pollLoop_events [OF this] obtain evs3 where
      tr3: "trace s' = trace s2 @ evs3" and tf3: "tokenFirst evs3"
      and se3: "\<forall>v. r = Inr v \<longrightarrow> settled evs3"
      by auto
    from se2 Inr have s2: "settled evs2" by simp
    from tr1 tr2 tr3 have "trace s' = trace s @ (evs2 @ evs3)" by simp
    moreover have "tokenFirst (evs2 @ evs3)" by (rule settled_tokenFirst_append [OF s2 tf3])
    moreover have "\<forall>v. r = Inr v \<longrightarrow> settled (evs2 @ evs3)"
      using se3 settled_append [OF s2] by blast
    ultimately show ?thesis by blast
  qed
qed

lemma pollLoop_ends:
  assumes run: "pollLoop c0 E0 rec0 start st0 s0 = Some y0"
  shows "\<forall>s k. pollPrefix c0 E0 rec0 s k = Some (start, st0, s0) \<longrightarrow>
           (\<exists>n. \<not> polling c0 E0 rec0 s n)"
proof (rule pollLoop.raw_induct [where P = "\<lambda>c E rec t0 st s1 y.
    \<forall>s k. pollPrefix c E rec s k = Some (t0, st, s1) \<longrightarrow> (\<exists>n. \<not> polling c E rec s n)",
    OF _ run])
  fix f c E rec t0 st s1 y
  assume IH: "\<And>(c :: constants) (E :: environment) (rec :: RecognitionResponse) (t0 :: int)
      (st :: RecognitionStatusResponse) (s1 :: state)
      (y :: (error + RecognitionStatusResponse) \<times> state).
    f c E rec t0 st s1 = Some y \<Longrightarrow>
    \<forall>s k. pollPrefix c E rec s k = Some (t0, st, s1) \<longrightarrow> (\<exists>n. \<not> polling c E rec s n)"
  assume body:
    "(if status st \<noteq> ''DONE'' then
        (case dateNow E s1 of
           (now, s1') \<Rightarrow>
             if MAX_WAIT_TIME c < now - t0 then Some (Inl (Error ''Recognition timeout''), s1')
             else
               (case getRecognitionStatus c E rec (delay (RECOGNITION_POLLING_DELAY c) s1') of
                  (Inl e, s2) \<Rightarrow> Some (Inl e, s2)
                | (Inr st1, s2) \<Rightarrow> f c E rec t0 st1 s2))
      else Some (Inr st, s1)) = Some y"
  show "\<forall>s k. pollPrefix c E rec s k = Some (t0, st, s1) \<longrightarrow> (\<exists>n. \<not> polling c E rec s n)"
  proof (intro allI impI)
    fix s k
    assume pre: "pollPrefix c E rec s k = Some (t0, st, s1)"
    show "\<exists>n. \<not> polling c E rec s n"
    proof (cases "status st \<noteq> ''DONE'' \<and> \<not> MAX_WAIT_TIME c < clock E (ticks s1) - t0")
      case False
      with pre have "\<not> polling c E rec s k" by (auto simp add: polling_def)
      then show ?thesis ..
    next
      case True
      let ?s1 = "delay (RECOGNITION_POLLING_DELAY c) (snd (dateNow E s1))"
      obtain r2 s2 where q: "getRecognitionStatus c E rec ?s1 = (r2, s2)"
        by (cases "getRecognitionStatus c E rec ?s1")
      show ?thesis
      proof (cases r2)
        case (Inl e)
        with pre True q have "pollPrefix c E rec s (Suc k) = None"
          by (simp add: dateNow_def)
        then have "\<not> polling c E rec s (Suc k)" by (simp add: polling_def)
        then show ?thesis ..
      next
        case (Inr st1)
        with pre True q have "pollPrefix c E rec s (Suc k) = Some (t0, st1, s2)"
          by (simp add: dateNow_def)
        moreover from body True q Inr have "f c E rec t0 st1 s2 = Some y"
          by (simp add: dateNow_def)
        ultimately show ?thesis using IH by blast
      qed
    qed
  qed
qed

lemma pollingStage_ends:
  assumes run: "pollingStage c E rec s = Some y"
  shows "\<exists>n. \<not> polling c E rec s n"
proof -
  obtain r2 s2 where q: "getRecognitionStatus c E rec (snd (dateNow E s)) = (r2, s2)"
    by (cases "getRecognitionStatus c E rec (snd (dateNow E s))")
  show ?thesis
  proof (cases r2)
    case (Inl e)
    with q have "pollPrefix c E rec s 0 = None" by (simp add: case_prod_beta)
    then have "\<not> polling c E rec s 0" by (simp add: polling_def)
    then show ?thesis ..
  next
    case (Inr st)
    with q have pre: "pollPrefix c E rec s 0 = Some (fst (dateNow E s), st, s2)"
      by (simp add: case_prod_beta)
    from run q Inr have "pollLoop c E rec (fst (dateNow E s)) st s2 = Some y"
      by (simp add: pollingStage_def case_prod_beta)
    from pollLoop_ends [OF this] pre show ?thesis by blast
  qed
qed

lemma polling_forever:
  assumes tokens: "\<forall>k. \<exists>t. tokenServer E k = Inr (Some t)"
    and answers: "\<forall>k. \<exists>st. statusServer E k = Inr st \<and> status st \<noteq> ''DONE''"
    and frozen: "\<forall>k j. clock E k - clock E j \<le> MAX_WAIT_TIME c"
  shows "polling c E rec s n"
proof -
  have "\<exists>st s1. pollPrefix c E rec s n = Some (clock E (ticks s), st, s1) \<and> status st \<noteq> ''DONE''"
  proof (induction n)
    case 0
    from getRecognitionStatus_answered [OF tokens answers] obtain st s2 where
      "getRecognitionStatus c E rec (snd (dateNow E s)) = (Inr st, s2)" "status st \<noteq> ''DONE''"
      by blast
    then show ?case by (simp add: case_prod_beta dateNow_def)
  next
    case (Suc n)
    then obtain st0 s0 where
      pre: "pollPrefix c E rec s n = Some (clock E (ticks s), st0, s0)"
      and notDone: "status st0 \<noteq> ''DONE''"
      by blast
    from getRecognitionStatus_answered [OF tokens answers] obtain st s2 where
      "getRecognitionStatus c E rec (delay (RECOGNITION_POLLING_DELAY c) (snd (dateNow E s0)))
         = (Inr st, s2)" "status st \<noteq> ''DONE''"
      by blast
    with pre notDone frozen show ?case
      by (simp add: dateNow_def not_less)
  qed
  with frozen show ?thesis by (auto simp add: polling_def)
qed

lemma pollPrefix_events:
  "pollPrefix c E rec s n = Some (t0, st, s1) \<Longrightarrow> \<exists>evs. trace s1 = trace s @ evs \<and> settled evs"
proof (induction n arbitrary: t0 st s1)
  case 0
  then have q: "getRecognitionStatus c E rec (snd (dateNow E s)) = (Inr st, s1)"
    by (auto split: prod.splits sum.splits)
  from getRecognitionStatus_events [OF q] show ?case
    by (auto simp add: dateNow_def)
next
  case (Suc n)
  let ?d = "RECOGNITION_POLLING_DELAY c"
  from Suc.prems obtain st0 s0 where
    pre: "pollPrefix c E rec s n = Some (t0, st0, s0)"
    and q: "getRecognitionStatus c E rec (delay ?d (snd (dateNow E s0))) = (Inr st, s1)"
    by (auto simp add: dateNow_def split: option.splits if_splits sum.splits prod.splits)
  from Suc.IH [OF pre] obtain evs0 where
    tr0: "trace s0 = trace s @ evs0" and se0: "settled evs0"
    by blast
  from getRecognitionStatus_events [OF q] obtain evs1 where
    tr1: "trace s1 = trace (delay ?d (snd (dateNow E s0))) @ evs1" and se1: "settled evs1"
    by auto
  from tr0 tr1 have "trace s1 = trace s @ (evs0 @ [SetTimeout ?d] @ evs1)"
    by (simp add: delay_def dateNow_def)
  moreover have "settled (evs0 @ [SetTimeout ?d] @ evs1)"
    by (intro settled_append se0 se1 settled_SetTimeout)
  ultimately show ?case by blast
qed

lemma pollingStage_first_fails:
  "getRecognitionStatus c E rec (snd (dateNow E s)) = (Inl e, s3) \<Longrightarrow>
   pollingStage c E rec s = Some (Inl e, s3)"
  by (simp add: pollingStage_def case_prod_beta)

lemma pollingStage_after:
  assumes pre: "pollPrefix c E rec s n = Some (startTime, st, s3)"
  shows "if status st = ''DONE'' then pollingStage c E rec s = Some (Inr st, s3)
         else if MAX_WAIT_TIME c < clock E (ticks s3) - startTime then
           pollingStage c E rec s
             = Some (Inl (Error ''Recognition timeout''), s3\<lparr>ticks := Suc (ticks s3)\<rparr>)
         else
           (\<forall>e s4. getRecognitionStatus c E rec
                      (delay (RECOGNITION_POLLING_DELAY c) (snd (dateNow E s3))) = (Inl e, s4) \<longrightarrow>
              pollingStage c E rec s = Some (Inl e, s4))"
proof -
  from pollPrefix_run [OF pre] have "pollingStage c E rec s = pollLoop c E rec startTime st s3"
    by simp
  then show ?thesis
    by (simp add: pollLoop_done pollLoop_timeout pollLoop_fail)
qed

text \<open>
  C3, as the claim states it. The clock is compared with the limit only right after a
  status that is not \<^verbatim>\<open>DONE\<close>, and not between the polling delay and the next query.
  Here the first status is \<^verbatim>\<open>RUNNING\<close> and the clock still reads the start time when
  the loop checks it; the next reading, which the token accessor takes before the second
  status query, is 100 seconds past the start, with a limit of 60 seconds; the second query
  answers \<^verbatim>\<open>DONE\<close>. The clock has passed the limit before any status was \<^verbatim>\<open>DONE\<close>,
  and the stage returns the status and no timeout.
\<close>

theorem pollingStage_late_done:
  "MAX_WAIT_TIME exampleConstants < clock lateDoneEnvironment 3 - clock lateDoneEnvironment 0
   \<and> status (projr (statusServer lateDoneEnvironment 0)) = ''RUNNING''
   \<and> status (projr (statusServer lateDoneEnvironment 1)) = ''DONE''
   \<and> map_option (map_sum id status \<circ> fst)
         (pollingStage exampleConstants lateDoneEnvironment exampleRecognition
            (exampleState (Some exampleToken)))
       = Some (Inr ''DONE'')
   \<and> map_option (ticks \<circ> snd)
         (pollingStage exampleConstants lateDoneEnvironment exampleRecognition
            (exampleState (Some exampleToken)))
       = Some 4
   \<and> map_option (actions \<circ> trace \<circ> snd)
         (pollingStage exampleConstants lateDoneEnvironment exampleRecognition
            (exampleState (Some exampleToken)))
       = Some [Query TaskGet ''BASE/task:get?id=job'', Sleep 1000,
               Query TaskGet ''BASE/task:get?id=job'']"
proof -
  let ?s1 = "snd (getRecognitionStatus exampleConstants lateDoneEnvironment exampleRecognition
      (snd (dateNow lateDoneEnvironment (exampleState (Some exampleToken)))))"
  let ?s2 = "snd (getRecognitionStatus exampleConstants lateDoneEnvironment exampleRecognition
      (delay (RECOGNITION_POLLING_DELAY exampleConstants) (snd (dateNow lateDoneEnvironment ?s1))))"
  let ?running = "\<lparr>id' = ''job'', created_at = ''t0'', updated_at = ''t1'',
                    status = ''RUNNING'', response_file_id = ''response''\<rparr>"
  let ?fin = "\<lparr>id' = ''job'', created_at = ''t0'', updated_at = ''t1'',
                status = ''DONE'', response_file_id = ''response''\<rparr>"
  have q1: "getRecognitionStatus exampleConstants lateDoneEnvironment exampleRecognition
      (snd (dateNow lateDoneEnvironment (exampleState (Some exampleToken)))) = (Inr ?running, ?s1)"
    by (simp add: getRecognitionStatus_def delay_def getAccessToken_def updateAccessToken_def
        axios_def dateNow_def exampleConstants_def exampleEnvironment_def exampleState_def
        exampleToken_def exampleRecognition_def lateDoneEnvironment_def)
  have t1: "\<not> MAX_WAIT_TIME exampleConstants
      < clock lateDoneEnvironment (ticks ?s1) - fst (dateNow lateDoneEnvironment (exampleState (Some exampleToken)))"
    by (simp add: getRecognitionStatus_def delay_def getAccessToken_def updateAccessToken_def
        axios_def dateNow_def exampleConstants_def exampleEnvironment_def exampleState_def
        exampleToken_def exampleRecognition_def lateDoneEnvironment_def)
  have q2: "getRecognitionStatus exampleConstants lateDoneEnvironment exampleRecognition
      (delay (RECOGNITION_POLLING_DELAY exampleConstants) (snd (dateNow lateDoneEnvironment ?s1)))
      = (Inr ?fin, ?s2)"
    by (simp add: getRecognitionStatus_def delay_def getAccessToken_def updateAccessToken_def
        axios_def dateNow_def exampleConstants_def exampleEnvironment_def exampleState_def
        exampleToken_def exampleRecognition_def lateDoneEnvironment_def)
  have "pollingStage exampleConstants lateDoneEnvironment exampleRecognition
      (exampleState (Some exampleToken))
      = pollLoop exampleConstants lateDoneEnvironment exampleRecognition
          (fst (dateNow lateDoneEnvironment (exampleState (Some exampleToken)))) ?running ?s1"
  proof -
    from q1 have "fst (getRecognitionStatus exampleConstants lateDoneEnvironment exampleRecognition
        (snd (dateNow lateDoneEnvironment (exampleState (Some exampleToken))))) = Inr ?running"
      by (metis fst_conv)
    then show ?thesis by (simp add: pollingStage_def case_prod_beta)
  qed
  also have "\<dots> = pollLoop exampleConstants lateDoneEnvironment exampleRecognition
          (fst (dateNow lateDoneEnvironment (exampleState (Some exampleToken)))) ?fin ?s2"
    by (rule pollLoop_continue [OF _ t1 q2]) simp
  also have "\<dots> = Some (Inr ?fin, ?s2)"
    by (rule pollLoop_done) simp
  finally have run: "pollingStage exampleConstants lateDoneEnvironment exampleRecognition
      (exampleState (Some exampleToken)) = Some (Inr ?fin, ?s2)" .
  have "MAX_WAIT_TIME exampleConstants < clock lateDoneEnvironment 3 - clock lateDoneEnvironment 0"
    and "status (projr (statusServer lateDoneEnvironment 0)) = ''RUNNING''"
    and "status (projr (statusServer lateDoneEnvironment 1)) = ''DONE''"
    by (simp_all add: exampleConstants_def lateDoneEnvironment_def exampleEnvironment_def)
  moreover have "ticks ?s2 = 4"
    and "actions (trace ?s2) = [Query TaskGet ''BASE/task:get?id=job'', Sleep 1000,
               Query TaskGet ''BASE/task:get?id=job'']"
    by (simp_all add: getRecognitionStatus_def delay_def getAccessToken_def
        updateAccessToken_def axios_def dateNow_def exampleConstants_def exampleEnvironment_def
        exampleState_def exampleToken_def exampleRecognition_def lateDoneEnvironment_def)
  ultimately show ?thesis
    unfolding run by simp
qed

text \<open>
  C3, amended. Let the polling stage have made its first status query and gone \<open>n\<close> times
  round the loop without seeing \<^verbatim>\<open>DONE\<close>, let the last status not be \<^verbatim>\<open>DONE\<close> either,
  and let the clock, read by the loop right after this status, be more than
  \<^verbatim>\<open>MAX_WAIT_TIME\<close> past the start time. Then the stage ends with the error
  \<^verbatim>\<open>Recognition timeout\<close>. Its final state is the state in which the timeout was found but
  for this one reading of the clock, so no query follows: the stage made the \<open>n + 1\<close> status
  queries before it and slept \<open>n\<close> times. The start time is the reading taken before the
  first status query and is the same in every round.
\<close>

theorem pollingStage_timeout:
  assumes "pollPrefix c E rec s n = Some (startTime, st, s1)"
    and "status st \<noteq> ''DONE''"
    and "MAX_WAIT_TIME c < clock E (ticks s1) - startTime"
  shows "pollingStage c E rec s
           = Some (Inl (Error ''Recognition timeout''), s1\<lparr>ticks := Suc (ticks s1)\<rparr>)
         \<and> startTime = clock E (ticks s)
         \<and> (\<exists>evs. trace s1 = trace s @ evs \<and>
               actions evs = Query TaskGet (SPEECH_BASE_URL c @ ''/task:get?id='' @ id' rec)
                 # concat (replicate n
                     [Sleep (RECOGNITION_POLLING_DELAY c),
                      Query TaskGet (SPEECH_BASE_URL c @ ''/task:get?id='' @ id' rec)]))"
  using pollPrefix_run [OF assms(1)] pollLoop_timeout [OF assms(2,3)]
  by (auto simp add: step_def)

theorem pollingStage_timeout_witness:
  "\<exists>startTime st s1.
     pollPrefix exampleConstants slowEnvironment exampleRecognition
       (exampleState (Some exampleToken)) (Suc 0) = Some (startTime, st, s1)
     \<and> status st \<noteq> ''DONE''
     \<and> MAX_WAIT_TIME exampleConstants < clock slowEnvironment (ticks s1) - startTime
     \<and> pollingStage exampleConstants slowEnvironment exampleRecognition
          (exampleState (Some exampleToken))
        = Some (Inl (Error ''Recognition timeout''), s1\<lparr>ticks := Suc (ticks s1)\<rparr>)
     \<and> length (requests TaskGet (trace s1)) = 2"
proof -
  have "\<exists>startTime st s1.
     pollPrefix exampleConstants slowEnvironment exampleRecognition
       (exampleState (Some exampleToken)) (Suc 0) = Some (startTime, st, s1)
     \<and> status st \<noteq> ''DONE''
     \<and> MAX_WAIT_TIME exampleConstants < clock slowEnvironment (ticks s1) - startTime
     \<and> length (requests TaskGet (trace s1)) = 2"
    by (simp add: getRecognitionStatus_def delay_def getAccessToken_def updateAccessToken_def
        axios_def dateNow_def exampleConstants_def exampleEnvironment_def exampleState_def
        exampleToken_def exampleRecognition_def slowEnvironment_def)
  then obtain startTime st s1 where
    pre: "pollPrefix exampleConstants slowEnvironment exampleRecognition
       (exampleState (Some exampleToken)) (Suc 0) = Some (startTime, st, s1)"
    and notDone: "status st \<noteq> ''DONE''"
    and late: "MAX_WAIT_TIME exampleConstants < clock slowEnvironment (ticks s1) - startTime"
    and two: "length (requests TaskGet (trace s1)) = 2"
    by blast
  from pollingStage_timeout [OF pre notDone late] pre notDone late two
  show ?thesis by blast
qed

text \<open>
  C4. The first three status queries of the polling stage are answered with \<open>a\<close>, \<open>b\<close> and
  \<open>d\<close>, of which only \<open>d\<close> has the status \<^verbatim>\<open>DONE\<close>, and the clock never reads more than
  \<^verbatim>\<open>MAX_WAIT_TIME\<close> past the start. Then the polling stage returns \<open>d\<close> in the state
  that the third query left, and what it did (token requests aside) is: a status query, the
  polling delay, a status query, the polling delay, a status query, each query for the id
  of the same job.
\<close>

theorem pollingStage_three_queries:
  assumes clk: "\<forall>k. clock E k - clock E (ticks s) \<le> MAX_WAIT_TIME c"
    and A: "getRecognitionStatus c E rec (snd (dateNow E s)) = (Inr a, s1)"
           "status a \<noteq> ''DONE''"
    and B: "getRecognitionStatus c E rec
              (delay (RECOGNITION_POLLING_DELAY c) (snd (dateNow E s1))) = (Inr b, s2)"
           "status b \<noteq> ''DONE''"
    and D: "getRecognitionStatus c E rec
              (delay (RECOGNITION_POLLING_DELAY c) (snd (dateNow E s2))) = (Inr d, s3)"
           "status d = ''DONE''"
  shows "pollingStage c E rec s = Some (Inr d, s3) \<and>
         (\<exists>evs. trace s3 = trace s @ evs \<and>
           actions evs =
             [Query TaskGet (SPEECH_BASE_URL c @ ''/task:get?id='' @ id' rec),
              Sleep (RECOGNITION_POLLING_DELAY c),
              Query TaskGet (SPEECH_BASE_URL c @ ''/task:get?id='' @ id' rec),
              Sleep (RECOGNITION_POLLING_DELAY c),
              Query TaskGet (SPEECH_BASE_URL c @ ''/task:get?id='' @ id' rec)])"
proof -
  let ?u = "SPEECH_BASE_URL c @ ''/task:get?id='' @ id' rec"
  let ?d = "RECOGNITION_POLLING_DELAY c"
  let ?t0 = "clock E (ticks s)"
  have inTime: "\<not> MAX_WAIT_TIME c < clock E (ticks x) - ?t0" for x :: state
    using clk by (simp add: not_less)
  from A(1) have "pollingStage c E rec s = pollLoop c E rec ?t0 a s1"
    by (simp add: pollingStage_def dateNow_def)
  also have "\<dots> = pollLoop c E rec ?t0 b s2"
    by (rule pollLoop_continue [OF A(2) inTime B(1)])
  also have "\<dots> = pollLoop c E rec ?t0 d s3"
    by (rule pollLoop_continue [OF B(2) inTime D(1)])
  also have "\<dots> = Some (Inr d, s3)"
    by (rule pollLoop_done [OF D(2)])
  finally have run: "pollingStage c E rec s = Some (Inr d, s3)" .
  from getRecognitionStatus_effect [OF A(1)] obtain evs1 where
    st1: "step (snd (dateNow E s)) evs1 s1" and act1: "actions evs1 = [Query TaskGet ?u]"
    by auto
  from getRecognitionStatus_effect [OF B(1)] obtain evs2 where
    st2: "step (delay ?d (snd (dateNow E s1))) evs2 s2" and act2: "actions evs2 = [Query TaskGet ?u]"
    by auto
  from getRecognitionStatus_effect [OF D(1)] obtain evs3 where
    st3: "step (delay ?d (snd (dateNow E s2))) evs3 s3" and act3: "actions evs3 = [Query TaskGet ?u]"
    by auto
  have round: "step x (([] @ [SetTimeout ?d]) @ evs) y"
    if "step (delay ?d (snd (dateNow E x))) evs y" for x evs y
    by (rule step_trans [OF step_trans [OF step_dateNow step_delay] that])
  have "step s ((([] @ evs1) @ ([] @ [SetTimeout ?d]) @ evs2) @ ([] @ [SetTimeout ?d]) @ evs3) s3"
    by (rule step_trans [OF step_trans [OF step_trans [OF step_dateNow st1] round [OF st2]]
          round [OF st3]])
  then have "trace s3 = trace s @ (evs1 @ SetTimeout ?d # evs2 @ SetTimeout ?d # evs3)"
    by (simp add: step_def)
  moreover have "actions (evs1 @ SetTimeout ?d # evs2 @ SetTimeout ?d # evs3)
      = [Query TaskGet ?u, Sleep ?d, Query TaskGet ?u, Sleep ?d, Query TaskGet ?u]"
    by (simp add: act1 act2 act3)
  ultimately show ?thesis using run by blast
qed

theorem pollingStage_three_queries_witness:
  "(\<forall>k. clock threeStepEnvironment k - clock threeStepEnvironment (ticks (exampleState None))
          \<le> MAX_WAIT_TIME exampleConstants)
   \<and> (\<exists>a s1 b s2 d s3.
        getRecognitionStatus exampleConstants threeStepEnvironment exampleRecognition
          (snd (dateNow threeStepEnvironment (exampleState None))) = (Inr a, s1)
        \<and> status a = ''RUNNING''
        \<and> getRecognitionStatus exampleConstants threeStepEnvironment exampleRecognition
            (delay (RECOGNITION_POLLING_DELAY exampleConstants)
               (snd (dateNow threeStepEnvironment s1))) = (Inr b, s2)
        \<and> status b = ''RUNNING''
        \<and> getRecognitionStatus exampleConstants threeStepEnvironment exampleRecognition
            (delay (RECOGNITION_POLLING_DELAY exampleConstants)
               (snd (dateNow threeStepEnvironment s2))) = (Inr d, s3)
        \<and> status d = ''DONE''
        \<and> pollingStage exampleConstants threeStepEnvironment exampleRecognition (exampleState None)
            = Some (Inr d, s3)
        \<and> actions (trace s3) =
             [Query TaskGet ''BASE/task:get?id=job'', Sleep 1000,
              Query TaskGet ''BASE/task:get?id=job'', Sleep 1000,
              Query TaskGet ''BASE/task:get?id=job'']
        \<and> length (requests TokenExchange (trace s3)) = 1)"
proof -
  let ?running = "\<lparr>id' = ''job'', created_at = ''t0'', updated_at = ''t1'',
                    status = ''RUNNING'', response_file_id = ''response''\<rparr>"
  let ?fin = "\<lparr>id' = ''job'', created_at = ''t0'', updated_at = ''t1'',
                status = ''DONE'', response_file_id = ''response''\<rparr>"
  let ?s1 = "snd (getRecognitionStatus exampleConstants threeStepEnvironment exampleRecognition
      (snd (dateNow threeStepEnvironment (exampleState None))))"
  let ?s2 = "snd (getRecognitionStatus exampleConstants threeStepEnvironment exampleRecognition
      (delay (RECOGNITION_POLLING_DELAY exampleConstants) (snd (dateNow threeStepEnvironment ?s1))))"
  let ?s3 = "snd (getRecognitionStatus exampleConstants threeStepEnvironment exampleRecognition
      (delay (RECOGNITION_POLLING_DELAY exampleConstants) (snd (dateNow threeStepEnvironment ?s2))))"
  have clk: "\<forall>k. clock threeStepEnvironment k - clock threeStepEnvironment (ticks (exampleState None))
          \<le> MAX_WAIT_TIME exampleConstants"
    by (simp add: threeStepEnvironment_def exampleEnvironment_def exampleConstants_def)
  have A: "getRecognitionStatus exampleConstants threeStepEnvironment exampleRecognition
      (snd (dateNow threeStepEnvironment (exampleState None))) = (Inr ?running, ?s1)"
    by (simp add: getRecognitionStatus_def delay_def getAccessToken_def updateAccessToken_def
        axios_def dateNow_def exampleConstants_def exampleEnvironment_def exampleState_def
        exampleToken_def exampleRecognition_def threeStepEnvironment_def)
  have B: "getRecognitionStatus exampleConstants threeStepEnvironment exampleRecognition
      (delay (RECOGNITION_POLLING_DELAY exampleConstants) (snd (dateNow threeStepEnvironment ?s1)))
      = (Inr ?running, ?s2)"
    by (simp add: getRecognitionStatus_def delay_def getAccessToken_def updateAccessToken_def
        axios_def dateNow_def exampleConstants_def exampleEnvironment_def exampleState_def
        exampleToken_def exampleRecognition_def threeStepEnvironment_def)
  have D: "getRecognitionStatus exampleConstants threeStepEnvironment exampleRecognition
      (delay (RECOGNITION_POLLING_DELAY exampleConstants) (snd (dateNow threeStepEnvironment ?s2)))
      = (Inr ?fin, ?s3)"
    by (simp add: getRecognitionStatus_def delay_def getAccessToken_def updateAccessToken_def
        axios_def dateNow_def exampleConstants_def exampleEnvironment_def exampleState_def
        exampleToken_def exampleRecognition_def threeStepEnvironment_def)
  have acts: "actions (trace ?s3) =
             [Query TaskGet ''BASE/task:get?id=job'', Sleep 1000,
              Query TaskGet ''BASE/task:get?id=job'', Sleep 1000,
              Query TaskGet ''BASE/task:get?id=job'']"
    and one: "length (requests TokenExchange (trace ?s3)) = 1"
    by (simp_all add: getRecognitionStatus_def delay_def getAccessToken_def updateAccessToken_def
        axios_def dateNow_def exampleConstants_def exampleEnvironment_def exampleState_def
        exampleToken_def exampleRecognition_def threeStepEnvironment_def)
  have "pollingStage exampleConstants threeStepEnvironment exampleRecognition (exampleState None)
      = Some (Inr ?fin, ?s3)"
    using pollingStage_three_queries [OF clk A _ B _ D] by simp
  with clk A B D acts one show ?thesis
    by (intro conjI exI [of _ ?running] exI [of _ ?s1] exI [of _ ?s2] exI [of _ ?fin]
        exI [of _ ?s3]) simp_all
qed

section \<open>The aggregation\<close>

lemma foldl_append_concat: "foldl (\<lambda>acc x. acc @ f x) a xs = a @ concat (map f xs)"
  by (induction xs arbitrary: a) simp_all

lemma concat_map_concat_map:
  "concat (map (\<lambda>x. concat (map g (h x))) xs) = concat (map g (concat (map h xs)))"
  by (induction xs) simp_all

text \<open>What \<open>trim\<close> does: it takes white space, and nothing else, from the two ends, and
  what is left neither begins nor ends with white space.\<close>

lemma trim_decompose:
  "\<exists>a b. str = a @ trim str @ b \<and> list_all isWhiteSpace a \<and> list_all isWhiteSpace b"
proof -
  let ?xs = "dropWhile isWhiteSpace str"
  have "rev (takeWhile isWhiteSpace (rev ?xs) @ dropWhile isWhiteSpace (rev ?xs)) = ?xs"
    by (simp only: takeWhile_dropWhile_id rev_rev_ident)
  then have "?xs = trim str @ rev (takeWhile isWhiteSpace (rev ?xs))"
    by (simp only: rev_append trim_def)
  then have "str = takeWhile isWhiteSpace str @ trim str @ rev (takeWhile isWhiteSpace (rev ?xs))"
    using takeWhile_dropWhile_id [of isWhiteSpace str] by simp
  moreover have "list_all isWhiteSpace (takeWhile isWhiteSpace str)"
    and "list_all isWhiteSpace (rev (takeWhile isWhiteSpace (rev ?xs)))"
    by (auto simp add: list_all_iff dest: set_takeWhileD)
  ultimately show ?thesis by blast
qed

lemma trim_ends:
  assumes "trim str \<noteq> []"
  shows "\<not> isWhiteSpace (hd (trim str))" and "\<not> isWhiteSpace (last (trim str))"
proof -
  let ?xs = "dropWhile isWhiteSpace str"
  let ?ys = "dropWhile isWhiteSpace (rev ?xs)"
  from assms have ys: "?ys \<noteq> []" by (simp add: trim_def)
  have xs: "?xs \<noteq> []"
  proof
    assume "?xs = []"
    then have "?ys = []" by (simp only: rev.simps dropWhile.simps)
    with ys show False by contradiction
  qed
  from ys show "\<not> isWhiteSpace (last (trim str))"
    by (simp add: trim_def last_rev hd_dropWhile)
  have "last ?ys = last (rev ?xs)"
    using ys by (metis last_appendR takeWhile_dropWhile_id)
  also have "\<dots> = hd ?xs" using xs by (simp add: last_rev)
  finally have "hd (trim str) = hd ?xs" using ys by (simp add: trim_def hd_rev)
  with xs show "\<not> isWhiteSpace (hd (trim str))"
    by (simp add: hd_dropWhile)
qed

text \<open>
  C5. The text is the concatenation, over all fragments of all segments in order, of a space
  and the fragment's text, trimmed; the normalized text likewise from the normalized
  fields. The two examples: fragments \<^verbatim>\<open>a\<close>, \<^verbatim>\<open>b\<close> give \<^verbatim>\<open>a b\<close> and \<^verbatim>\<open>A B\<close>, and
  any number of segments without fragments gives two empty strings.
\<close>

theorem aggregate_concat_trim:
  "aggregate r =
     \<lparr>text = trim (concat (map (\<lambda>f. '' '' @ fragment.text f) (concat (map results r)))),
      normalizedText = trim (concat (map (\<lambda>f. '' '' @ normalized_text f) (concat (map results r))))\<rparr>
   \<and> aggregate [\<lparr>results = [\<lparr>fragment.text = ''a'', normalized_text = ''A''\<rparr>,
                             \<lparr>fragment.text = ''b'', normalized_text = ''B''\<rparr>]\<rparr>]
       = \<lparr>text = ''a b'', normalizedText = ''A B''\<rparr>
   \<and> aggregate (replicate n \<lparr>results = []\<rparr>) = \<lparr>text = '''', normalizedText = ''''\<rparr>"
proof (intro conjI)
  have inner: "\<And>g xs. foldl (\<lambda>acc item. acc @ '' '' @ g item) [] xs
      = concat (map (\<lambda>f. '' '' @ g f) xs)"
    using foldl_append_concat [where a = "[]"] by simp
  show "aggregate r =
     \<lparr>text = trim (concat (map (\<lambda>f. '' '' @ fragment.text f) (concat (map results r)))),
      normalizedText = trim (concat (map (\<lambda>f. '' '' @ normalized_text f) (concat (map results r))))\<rparr>"
    by (simp add: aggregate_def inner foldl_append_concat concat_map_concat_map)
  show "aggregate [\<lparr>results = [\<lparr>fragment.text = ''a'', normalized_text = ''A''\<rparr>,
                             \<lparr>fragment.text = ''b'', normalized_text = ''B''\<rparr>]\<rparr>]
       = \<lparr>text = ''a b'', normalizedText = ''A B''\<rparr>"
    by (simp add: aggregate_def trim_def isWhiteSpace_def)
  have "foldl (\<lambda>acc item. acc @ foldl (\<lambda>acc item. acc @ '' '' @ g item) [] (results item)) []
          (replicate n \<lparr>results = []\<rparr>) = []" for g :: "fragment \<Rightarrow> string"
    by (induction n) simp_all
  then show "aggregate (replicate n \<lparr>results = []\<rparr>) = \<lparr>text = '''', normalizedText = ''''\<rparr>"
    by (simp add: aggregate_def trim_def)
qed

section \<open>The whole operation\<close>

lemma set_concat_replicate: "set (concat (replicate n xs)) \<subseteq> set xs"
  by (induction n) auto

lemma prefix_expectedActions:
  "prefix [] (expectedActions c rec st n)"
  "prefix [Query Upload (SPEECH_BASE_URL c @ ''/data:upload'')] (expectedActions c rec st n)"
  "prefix [Query Upload (SPEECH_BASE_URL c @ ''/data:upload''),
           Query AsyncRecognize (SPEECH_BASE_URL c @ ''/speech:async_recognize'')]
      (expectedActions c rec st n)"
  by (simp_all add: expectedActions_def)

lemma prefix_expectedActions_polls:
  assumes "prefix xs (Query TaskGet (SPEECH_BASE_URL c @ ''/task:get?id='' @ id' rec)
              # concat (replicate n
                  [Sleep (RECOGNITION_POLLING_DELAY c),
                   Query TaskGet (SPEECH_BASE_URL c @ ''/task:get?id='' @ id' rec)]))"
  shows "prefix ([Query Upload (SPEECH_BASE_URL c @ ''/data:upload''),
            Query AsyncRecognize (SPEECH_BASE_URL c @ ''/speech:async_recognize'')] @ xs)
      (expectedActions c rec st n)"
proof -
  let ?ys = "Query TaskGet (SPEECH_BASE_URL c @ ''/task:get?id='' @ id' rec)
              # concat (replicate n
                  [Sleep (RECOGNITION_POLLING_DELAY c),
                   Query TaskGet (SPEECH_BASE_URL c @ ''/task:get?id='' @ id' rec)])"
  let ?dl = "[Query Download (SPEECH_BASE_URL c @ ''/data:download?response_file_id=''
          @ response_file_id st)]"
  from assms have "prefix xs (?ys @ ?dl)" by (rule prefix_prefix)
  then have "prefix ([Query Upload (SPEECH_BASE_URL c @ ''/data:upload''),
            Query AsyncRecognize (SPEECH_BASE_URL c @ ''/speech:async_recognize'')] @ xs)
       ([Query Upload (SPEECH_BASE_URL c @ ''/data:upload''),
            Query AsyncRecognize (SPEECH_BASE_URL c @ ''/speech:async_recognize'')] @ ?ys @ ?dl)"
    by (simp only: same_prefix_prefix)
  then show ?thesis by (simp add: expectedActions_def)
qed

lemma speechToText_effect:
  assumes run: "speechToText c E audioPath encoding s = Some (r, s')"
  shows "\<exists>evs n rec st. step s evs s' \<and>
     (case r of
        Inl e \<Rightarrow>
          (e = Error ''Recognition timeout'' \<or> failure E (trace s') e \<or>
           (\<exists>reason. e = ParseFileError reason \<and> parseFile E audioPath = Inl reason \<and> evs = []))
          \<and> prefix (actions evs) (expectedActions c rec st n)
      | Inr res \<Rightarrow>
          actions evs = expectedActions c rec st n \<and> status st = ''DONE'' \<and>
          recognizeServer E (length (requests AsyncRecognize (trace s))) = Inr rec \<and>
          (\<exists>d. downloadServer E (length (requests Download (trace s))) = Inr d \<and>
               res = aggregate d))"
proof (cases "parseFile E audioPath")
  case (Inl reason)
  with run have "r = Inl (ParseFileError reason)" "s' = s"
    by (simp_all add: speechToText_def)
  with Inl show ?thesis
    by (intro exI [of _ "[]"]) (simp add: step_refl)
next
  case md: (Inr metadata)
  let ?up = "Query Upload (SPEECH_BASE_URL c @ ''/data:upload'')"
  let ?ar = "Query AsyncRecognize (SPEECH_BASE_URL c @ ''/speech:async_recognize'')"
  obtain r1 s1 where f1: "uploadFileForRecognition c E audioPath s = (r1, s1)"
    by (cases "uploadFileForRecognition c E audioPath s")
  from uploadFileForRecognition_effect [OF f1] obtain evs1 where
    st1: "step s evs1 s1"
    and out1: "case r1 of
       Inl e \<Rightarrow> failure E (trace s1) e \<and> (actions evs1 = [] \<or> actions evs1 = [?up])
     | Inr v \<Rightarrow> actions evs1 = [?up] \<and> uploadServer E (length (requests Upload (trace s))) = Inr v"
    by blast
  show ?thesis
  proof (cases r1)
    case (Inl e)
    with run md f1 have "r = Inl e" "s' = s1" by (simp_all add: speechToText_def)
    with out1 Inl st1 show ?thesis
      by (intro exI [of _ evs1]) (auto simp add: prefix_expectedActions)
  next
    case up: (Inr fileUploadResponse)
    with out1 have act1: "actions evs1 = [?up]" by simp
    obtain r2 s2 where f2:
      "startRecognition c E fileUploadResponse metadata encoding s1 = (r2, s2)"
      by (cases "startRecognition c E fileUploadResponse metadata encoding s1")
    from startRecognition_effect [OF f2] obtain evs2 where
      st2: "step s1 evs2 s2"
      and out2: "case r2 of
         Inl e \<Rightarrow> failure E (trace s2) e \<and> (actions evs2 = [] \<or> actions evs2 = [?ar])
       | Inr v \<Rightarrow> actions evs2 = [?ar] \<and>
           recognizeServer E (length (requests AsyncRecognize (trace s1))) = Inr v"
      by blast
    have st02: "step s (evs1 @ evs2) s2" by (rule step_trans [OF st1 st2])
    show ?thesis
    proof (cases r2)
      case (Inl e)
      with run md f1 up f2 have "r = Inl e" "s' = s2" by (simp_all add: speechToText_def)
      with out2 Inl st02 act1 show ?thesis
        by (intro exI [of _ "evs1 @ evs2"]) (auto simp add: prefix_expectedActions)
    next
      case rec: (Inr recognitionResponse)
      let ?d = "RECOGNITION_POLLING_DELAY c"
      let ?u = "SPEECH_BASE_URL c @ ''/task:get?id='' @ id' recognitionResponse"
      from out2 rec have act2: "actions evs2 = [?ar]"
        and srv2: "recognizeServer E (length (requests AsyncRecognize (trace s1)))
                     = Inr recognitionResponse"
        by simp_all
      have "requests AsyncRecognize evs1 = []"
        by (rule requests_absent) (simp_all add: act1)
      with st1 srv2 have srv2': "recognizeServer E (length (requests AsyncRecognize (trace s)))
                     = Inr recognitionResponse"
        by (simp add: step_def)
      from run md f1 up f2 rec obtain r3 s3 where
        f3: "pollingStage c E recognitionResponse s2 = Some (r3, s3)"
        by (cases "pollingStage c E recognitionResponse s2") (auto simp add: speechToText_def)
      from pollingStage_effect [OF f3] obtain evs3 n where
        st3: "step s2 evs3 s3"
        and out3: "case r3 of
           Inl e \<Rightarrow> (e = Error ''Recognition timeout'' \<or> failure E (trace s3) e) \<and>
             prefix (actions evs3) (Query TaskGet ?u # concat (replicate n [Sleep ?d, Query TaskGet ?u]))
         | Inr st \<Rightarrow> status st = ''DONE'' \<and>
             actions evs3 = Query TaskGet ?u # concat (replicate n [Sleep ?d, Query TaskGet ?u])"
        by blast
      have st03: "step s ((evs1 @ evs2) @ evs3) s3" by (rule step_trans [OF st02 st3])
      show ?thesis
      proof (cases r3)
        case (Inl e)
        with run md f1 up f2 rec f3 have "r = Inl e" "s' = s3"
          by (simp_all add: speechToText_def)
        moreover from out3 Inl have
          "prefix (actions ((evs1 @ evs2) @ evs3))
             (expectedActions c recognitionResponse undefined n)"
          using prefix_expectedActions_polls [of "actions evs3" c recognitionResponse n undefined]
          by (simp add: act1 act2)
        ultimately show ?thesis
          using out3 Inl st03
          by (intro exI [of _ "(evs1 @ evs2) @ evs3"] exI [of _ n]
              exI [of _ recognitionResponse] exI [of _ undefined]) auto
      next
        case stat: (Inr recognitionStatus)
        with out3 have isDone: "status recognitionStatus = ''DONE''"
          and act3: "actions evs3 = Query TaskGet ?u # concat (replicate n [Sleep ?d, Query TaskGet ?u])"
          by simp_all
        let ?dl = "Query Download (SPEECH_BASE_URL c @ ''/data:download?response_file_id=''
                     @ response_file_id recognitionStatus)"
        obtain r4 s4 where f4: "getRecognitionResult c E recognitionStatus s3 = (r4, s4)"
          by (cases "getRecognitionResult c E recognitionStatus s3")
        from getRecognitionResult_effect [OF f4] obtain evs4 where
          st4: "step s3 evs4 s4"
          and out4: "case r4 of
             Inl e \<Rightarrow> failure E (trace s4) e \<and> (actions evs4 = [] \<or> actions evs4 = [?dl])
           | Inr v \<Rightarrow> actions evs4 = [?dl] \<and>
               downloadServer E (length (requests Download (trace s3))) = Inr v"
          by blast
        have st04: "step s (((evs1 @ evs2) @ evs3) @ evs4) s4"
          by (rule step_trans [OF st03 st4])
        have act03: "actions ((evs1 @ evs2) @ evs3) =
            [?up, ?ar, Query TaskGet ?u] @ concat (replicate n [Sleep ?d, Query TaskGet ?u])"
          by (simp add: act1 act2 act3)
        have "\<And>v. Query Download v \<notin> set (actions ((evs1 @ evs2) @ evs3))"
          unfolding act03 using set_concat_replicate [of n "[Sleep ?d, Query TaskGet ?u]"]
          by auto
        then have "requests Download ((evs1 @ evs2) @ evs3) = []"
          by (intro requests_absent) simp_all
        with st03 have k4: "requests Download (trace s3) = requests Download (trace s)"
          by (simp add: step_def)
        show ?thesis
        proof (cases r4)
          case (Inl e)
          with run md f1 up f2 rec f3 stat f4 have "r = Inl e" "s' = s4"
            by (simp_all add: speechToText_def)
          moreover from out4 Inl have
            "prefix (actions (((evs1 @ evs2) @ evs3) @ evs4))
               (expectedActions c recognitionResponse recognitionStatus n)"
            unfolding actions_append [of "(evs1 @ evs2) @ evs3" evs4] act03
            by (auto simp add: expectedActions_def)
          ultimately show ?thesis
            using out4 Inl st04
            by (intro exI [of _ "((evs1 @ evs2) @ evs3) @ evs4"] exI [of _ n]
                exI [of _ recognitionResponse] exI [of _ recognitionStatus]) auto
        next
          case (Inr recognitionResult)
          with run md f1 up f2 rec f3 stat f4 have "r = Inr (aggregate recognitionResult)" "s' = s4"
            by (simp_all add: speechToText_def)
          moreover from out4 Inr have
            "actions (((evs1 @ evs2) @ evs3) @ evs4)
               = expectedActions c recognitionResponse recognitionStatus n"
            unfolding actions_append [of "(evs1 @ evs2) @ evs3" evs4] act03
            by (simp add: expectedActions_def)
          moreover from out4 Inr k4 have
            "downloadServer E (length (requests Download (trace s))) = Inr recognitionResult"
            by simp
          ultimately show ?thesis
            using st04 isDone srv2'
            by (intro exI [of _ "((evs1 @ evs2) @ evs3) @ evs4"] exI [of _ n]
                exI [of _ recognitionResponse] exI [of _ recognitionStatus]) simp
        qed
      qed
    qed
  qed
qed

lemma speechToText_events:
  assumes run: "speechToText c E audioPath encoding s = Some (r, s')"
  shows "\<exists>evs. trace s' = trace s @ evs \<and> tokenFirst evs \<and> (\<forall>v. r = Inr v \<longrightarrow> settled evs)"
proof (cases "parseFile E audioPath")
  case (Inl reason)
  with run have "s' = s" "r = Inl (ParseFileError reason)" by (simp_all add: speechToText_def)
  then show ?thesis by (intro exI [of _ "[]"]) simp
next
  case md: (Inr metadata)
  obtain r1 s1 where f1: "uploadFileForRecognition c E audioPath s = (r1, s1)"
    by (cases "uploadFileForRecognition c E audioPath s")
  from uploadFileForRecognition_events [OF f1] obtain evs1 where
    tr1: "trace s1 = trace s @ evs1" and tf1: "tokenFirst evs1"
    and se1: "\<forall>v. r1 = Inr v \<longrightarrow> settled evs1"
    by blast
  show ?thesis
  proof (cases r1)
    case (Inl e)
    with run md f1 have "r = Inl e" "s' = s1" by (simp_all add: speechToText_def)
    with tr1 tf1 show ?thesis by (intro exI [of _ evs1]) simp
  next
    case up: (Inr fileUploadResponse)
    with se1 have s1: "settled evs1" by simp
    obtain r2 s2 where f2:
      "startRecognition c E fileUploadResponse metadata encoding s1 = (r2, s2)"
      by (cases "startRecognition c E fileUploadResponse metadata encoding s1")
    from startRecognition_events [OF f2] obtain evs2 where
      tr2: "trace s2 = trace s1 @ evs2" and tf2: "tokenFirst evs2"
      and se2: "\<forall>v. r2 = Inr v \<longrightarrow> settled evs2"
      by blast
    from tr1 tr2 have tr02: "trace s2 = trace s @ (evs1 @ evs2)" by simp
    show ?thesis
    proof (cases r2)
      case (Inl e)
      with run md f1 up f2 have "r = Inl e" "s' = s2" by (simp_all add: speechToText_def)
      with tr02 settled_tokenFirst_append [OF s1 tf2] show ?thesis
        by (intro exI [of _ "evs1 @ evs2"]) simp
    next
      case rec: (Inr recognitionResponse)
      with se2 have "settled evs2" by simp
      with s1 have s12: "settled (evs1 @ evs2)" by (rule settled_append)
      from run md f1 up f2 rec obtain r3 s3 where
        f3: "pollingStage c E recognitionResponse s2 = Some (r3, s3)"
        by (cases "pollingStage c E recognitionResponse s2") (auto simp add: speechToText_def)
      from pollingStage_events [OF f3] obtain evs3 where
        tr3: "trace s3 = trace s2 @ evs3" and tf3: "tokenFirst evs3"
        and se3: "\<forall>v. r3 = Inr v \<longrightarrow> settled evs3"
        by blast
      from tr02 tr3 have tr03: "trace s3 = trace s @ ((evs1 @ evs2) @ evs3)" by simp
      show ?thesis
      proof (cases r3)
        case (Inl e)
        with run md f1 up f2 rec f3 have "r = Inl e" "s' = s3"
          by (simp_all add: speechToText_def)
        with tr03 settled_tokenFirst_append [OF s12 tf3] show ?thesis
          by (intro exI [of _ "(evs1 @ evs2) @ evs3"]) simp
      next
        case stat: (Inr recognitionStatus)
        with se3 have "settled evs3" by simp
        with s12 have s123: "settled ((evs1 @ evs2) @ evs3)" by (rule settled_append)
        obtain r4 s4 where f4: "getRecognitionResult c E recognitionStatus s3 = (r4, s4)"
          by (cases "getRecognitionResult c E recognitionStatus s3")
        from getRecognitionResult_events [OF f4] obtain evs4 where
          tr4: "trace s4 = trace s3 @ evs4" and tf4: "tokenFirst evs4"
          and se4: "\<forall>v. r4 = Inr v \<longrightarrow> settled evs4"
          by blast
        from run md f1 up f2 rec f3 stat f4 have s': "s' = s4"
          and r: "r = (case r4 of Inl e \<Rightarrow> Inl e | Inr res \<Rightarrow> Inr (aggregate res))"
          by (auto simp add: speechToText_def split: sum.splits)
        from tr03 tr4 s' have "trace s' = trace s @ (((evs1 @ evs2) @ evs3) @ evs4)" by simp
        moreover have "tokenFirst (((evs1 @ evs2) @ evs3) @ evs4)"
          by (rule settled_tokenFirst_append [OF s123 tf4])
        moreover have "\<forall>v. r = Inr v \<longrightarrow> settled (((evs1 @ evs2) @ evs3) @ evs4)"
          using r se4 settled_append [OF s123] by (auto split: sum.splits)
        ultimately show ?thesis by blast
      qed
    qed
  qed
qed

lemma speechToText_terminates:
  assumes "advancing c E"
  shows "\<exists>y. speechToText c E audioPath encoding s = Some y"
proof (cases "parseFile E audioPath")
  case (Inl reason)
  then show ?thesis by (simp add: speechToText_def)
next
  case (Inr metadata)
  obtain r1 s1 where up: "uploadFileForRecognition c E audioPath s = (r1, s1)"
    by (cases "uploadFileForRecognition c E audioPath s")
  show ?thesis
  proof (cases r1)
    case (Inl e)
    with Inr up show ?thesis by (simp add: speechToText_def)
  next
    case upOk: (Inr f)
    obtain r2 s2 where start: "startRecognition c E f metadata encoding s1 = (r2, s2)"
      by (cases "startRecognition c E f metadata encoding s1")
    show ?thesis
    proof (cases r2)
      case (Inl e)
      with Inr up upOk start show ?thesis by (simp add: speechToText_def)
    next
      case startOk: (Inr rec)
      from pollingStage_terminates [OF assms] obtain r3 s3 where
        poll: "pollingStage c E rec s2 = Some (r3, s3)" by fastforce
      show ?thesis
      proof (cases r3)
        case (Inl e)
        with Inr up upOk start startOk poll show ?thesis by (simp add: speechToText_def)
      next
        case pollOk: (Inr st)
        obtain r4 s4 where res: "getRecognitionResult c E st s3 = (r4, s4)"
          by (cases "getRecognitionResult c E st s3")
        with Inr up upOk start startOk poll pollOk show ?thesis
          by (cases r4) (simp_all add: speechToText_def)
      qed
    qed
  qed
qed

lemma speechToText_polling:
  assumes "parseFile E audioPath = Inr metadata"
    and "uploadFileForRecognition c E audioPath s = (Inr f, s1)"
    and "startRecognition c E f metadata encoding s1 = (Inr rec, s2)"
  shows "speechToText c E audioPath encoding s =
     (case pollingStage c E rec s2 of
        None \<Rightarrow> None
      | Some (Inl e, s3) \<Rightarrow> Some (Inl e, s3)
      | Some (Inr st, s3) \<Rightarrow>
          (case getRecognitionResult c E st s3 of
             (Inl e, s4) \<Rightarrow> Some (Inl e, s4)
           | (Inr d, s4) \<Rightarrow> Some (Inr (aggregate d), s4)))"
  using assms by (simp add: speechToText_def)

lemma speechToText_so_far:
  assumes up: "uploadFileForRecognition c E audioPath s = (Inr f, s1)"
    and start: "startRecognition c E f metadata encoding s1 = (Inr rec, s2)"
    and pre: "pollPrefix c E rec s2 n = Some (startTime, st, s3)"
  shows "\<exists>evs. step s evs s3 \<and> settled evs \<and> actions evs = butlast (expectedActions c rec st n)"
proof -
  from uploadFileForRecognition_effect [OF up] obtain evs1 where
    st1: "step s evs1 s1"
    and act1: "actions evs1 = [Query Upload (SPEECH_BASE_URL c @ ''/data:upload'')]"
    by auto
  from uploadFileForRecognition_events [OF up] st1 have se1: "settled evs1"
    by (auto simp add: step_def)
  from startRecognition_effect [OF start] obtain evs2 where
    st2: "step s1 evs2 s2"
    and act2: "actions evs2
      = [Query AsyncRecognize (SPEECH_BASE_URL c @ ''/speech:async_recognize'')]"
    by auto
  from startRecognition_events [OF start] st2 have se2: "settled evs2"
    by (auto simp add: step_def)
  from pollPrefix_run [OF pre] obtain evs3 where
    st3: "step s2 evs3 s3"
    and act3: "actions evs3 = Query TaskGet (SPEECH_BASE_URL c @ ''/task:get?id='' @ id' rec)
        # concat (replicate n
            [Sleep (RECOGNITION_POLLING_DELAY c),
             Query TaskGet (SPEECH_BASE_URL c @ ''/task:get?id='' @ id' rec)])"
    by auto
  from pollPrefix_events [OF pre] st3 have se3: "settled evs3"
    by (auto simp add: step_def)
  have "step s (evs1 @ evs2 @ evs3) s3"
    by (rule step_trans [OF st1 step_trans [OF st2 st3]])
  moreover have "settled (evs1 @ evs2 @ evs3)"
    by (intro settled_append se1 se2 se3)
  moreover have "actions (evs1 @ evs2 @ evs3) = butlast (expectedActions c rec st n)"
    by (simp add: act1 act2 act3 expectedActions_def butlast_append)
  ultimately show ?thesis by blast
qed


lemma speechToText_shape:
  assumes run: "speechToText c E audioPath encoding s = Some (r, s')"
  shows "\<exists>evs n rec st. step s evs s' \<and> tokenFirst evs \<and>
     (case r of
        Inl e \<Rightarrow> prefix (actions evs) (expectedActions c rec st n)
      | Inr res \<Rightarrow>
          settled evs \<and> actions evs = expectedActions c rec st n \<and> status st = ''DONE'' \<and>
          recognizeServer E (length (requests AsyncRecognize (trace s))) = Inr rec \<and>
          (\<exists>d. downloadServer E (length (requests Download (trace s))) = Inr d \<and>
               res = aggregate d))"
proof -
  from speechToText_effect [OF run] obtain evs n rec st where
    st: "step s evs s'"
    and eff: "case r of
        Inl e \<Rightarrow>
          (e = Error ''Recognition timeout'' \<or> failure E (trace s') e \<or>
           (\<exists>reason. e = ParseFileError reason \<and> parseFile E audioPath = Inl reason \<and> evs = []))
          \<and> prefix (actions evs) (expectedActions c rec st n)
      | Inr res \<Rightarrow>
          actions evs = expectedActions c rec st n \<and> status st = ''DONE'' \<and>
          recognizeServer E (length (requests AsyncRecognize (trace s))) = Inr rec \<and>
          (\<exists>d. downloadServer E (length (requests Download (trace s))) = Inr d \<and>
               res = aggregate d)"
    by blast
  from speechToText_events [OF run] obtain evs' where
    "trace s' = trace s @ evs'" and tf: "tokenFirst evs'"
    and se: "\<forall>v. r = Inr v \<longrightarrow> settled evs'"
    by blast
  with st have same: "evs' = evs" by (simp add: step_def)
  show ?thesis
  proof (cases r)
    case (Inl e)
    with st eff tf same show ?thesis by auto
  next
    case (Inr res)
    with st eff tf se same show ?thesis by auto
  qed
qed

lemma failure_not_timeout: "failure E tr e \<Longrightarrow> e \<noteq> Error ''Recognition timeout''"
  by (auto simp add: failure_def)

text \<open>
  C7, as the claim states it. With tokens that are stale when they arrive, one successful
  run of \<^verbatim>\<open>speechToText\<close> exchanges a token four times, once before each of its four
  requests: token acquisition is not a stage that runs at most once.
\<close>

theorem speechToText_exchanges_four_times:
  "map_option fst
     (speechToText exampleConstants staleTokenEnvironment ''audio.mp3'' ''MP3'' (exampleState None))
     = Some (Inr \<lparr>text = ''hello world'', normalizedText = ''hello world''\<rparr>)
   \<and> map_option (length \<circ> requests TokenExchange \<circ> trace \<circ> snd)
         (speechToText exampleConstants staleTokenEnvironment ''audio.mp3'' ''MP3''
            (exampleState None))
       = Some 4
   \<and> map_option (actions \<circ> trace \<circ> snd)
         (speechToText exampleConstants staleTokenEnvironment ''audio.mp3'' ''MP3''
            (exampleState None))
       = Some [Query Upload ''BASE/data:upload'',
               Query AsyncRecognize ''BASE/speech:async_recognize'',
               Query TaskGet ''BASE/task:get?id=job'',
               Query Download ''BASE/data:download?response_file_id=response'']"
  by (simp add: speechToText_def uploadFileForRecognition_def startRecognition_def
      getRecognitionResult_def pollingStage_def number_def aggregate_def trim_def
      isWhiteSpace_def getRecognitionStatus_def delay_def getAccessToken_def
      updateAccessToken_def axios_def dateNow_def exampleConstants_def exampleEnvironment_def
      exampleState_def staleTokenEnvironment_def pollLoop_done)

text \<open>
  C7, amended. For every invocation of \<^verbatim>\<open>speechToText\<close>:

  \<^item> The failure of a stage ends the operation with the error of that stage, in the state
    in which the stage failed, so that nothing is done after it. This holds of the
    rejection of \<^verbatim>\<open>parseFile\<close>; of the failure of the token accessor or of the request
    in the upload, in the start of the recognition, in the first and in every later status
    query, and in the download, each reached after the stages before it have succeeded; and
    of the timeout, which is raised when the last status is not \<^verbatim>\<open>DONE\<close> and the
    clock, read after it, is more than \<^verbatim>\<open>MAX_WAIT_TIME\<close> past the start time.
  \<^item> When a status is \<^verbatim>\<open>DONE\<close> and the download succeeds, the operation returns the
    aggregate of the whole answer of the download, in the state that the download left.
  \<^item> Whenever the polling has made its first status query and \<open>n\<close> rounds, what has been
    done is the upload, the start of the recognition, a status query and \<open>n\<close> times a sleep
    and a status query, and every token request was directly followed by the request to
    another endpoint it was made for.
  \<^item> When the polling goes on after every round, the operation never returns. On a clock
    that advances it returns.
  \<^item> When it has returned, what it did is a prefix of that sequence followed by the
    download, the whole of it when it returns a result; every token request is the last
    event or is directly followed by a request to another endpoint, hence at most one token
    request before each request of a stage, in place of one for the whole operation; and a
    result is the aggregate of what the download endpoint answered.
\<close>

theorem speechToText_stages:
  "(\<forall>reason. parseFile E audioPath = Inl reason \<longrightarrow>
      speechToText c E audioPath encoding s = Some (Inl (ParseFileError reason), s))
   \<and> (\<forall>metadata. parseFile E audioPath = Inr metadata \<longrightarrow>
        (\<forall>e s1. getAccessToken c E s = (Inl e, s1) \<or>
                uploadFileForRecognition c E audioPath s = (Inl e, s1) \<longrightarrow>
           speechToText c E audioPath encoding s = Some (Inl e, s1))
      \<and> (\<forall>f s1. uploadFileForRecognition c E audioPath s = (Inr f, s1) \<longrightarrow>
           (\<forall>e s2. getAccessToken c E s1 = (Inl e, s2) \<or>
                   startRecognition c E f metadata encoding s1 = (Inl e, s2) \<longrightarrow>
              speechToText c E audioPath encoding s = Some (Inl e, s2))
         \<and> (\<forall>rec s2. startRecognition c E f metadata encoding s1 = (Inr rec, s2) \<longrightarrow>
              (\<forall>e s3. getAccessToken c E (snd (dateNow E s2)) = (Inl e, s3) \<or>
                      getRecognitionStatus c E rec (snd (dateNow E s2)) = (Inl e, s3) \<longrightarrow>
                 speechToText c E audioPath encoding s = Some (Inl e, s3))
            \<and> (\<forall>n startTime st s3. pollPrefix c E rec s2 n = Some (startTime, st, s3) \<longrightarrow>
                 (\<exists>evs. step s evs s3 \<and> settled evs \<and>
                    actions evs = butlast (expectedActions c rec st n))
                 \<and> (status st = ''DONE'' \<longrightarrow>
                    (\<forall>e s4. getAccessToken c E s3 = (Inl e, s4) \<or>
                            getRecognitionResult c E st s3 = (Inl e, s4) \<longrightarrow>
                       speechToText c E audioPath encoding s = Some (Inl e, s4))
                    \<and> (\<forall>d s4. getRecognitionResult c E st s3 = (Inr d, s4) \<longrightarrow>
                         speechToText c E audioPath encoding s = Some (Inr (aggregate d), s4)))
                 \<and> (status st \<noteq> ''DONE'' \<and>
                    MAX_WAIT_TIME c < clock E (ticks s3) - startTime \<longrightarrow>
                    speechToText c E audioPath encoding s
                      = Some (Inl (Error ''Recognition timeout''), s3\<lparr>ticks := Suc (ticks s3)\<rparr>))
                 \<and> (status st \<noteq> ''DONE'' \<and>
                    clock E (ticks s3) - startTime \<le> MAX_WAIT_TIME c \<longrightarrow>
                    (\<forall>e s4. getAccessToken c E
                               (delay (RECOGNITION_POLLING_DELAY c) (snd (dateNow E s3)))
                             = (Inl e, s4) \<or>
                            getRecognitionStatus c E rec
                               (delay (RECOGNITION_POLLING_DELAY c) (snd (dateNow E s3)))
                             = (Inl e, s4) \<longrightarrow>
                       speechToText c E audioPath encoding s = Some (Inl e, s4))))
            \<and> ((\<forall>n. polling c E rec s2 n) \<longrightarrow>
                 speechToText c E audioPath encoding s = None))))
   \<and> (advancing c E \<longrightarrow> (\<exists>r s'. speechToText c E audioPath encoding s = Some (r, s')))
   \<and> (\<forall>r s'. speechToText c E audioPath encoding s = Some (r, s') \<longrightarrow>
        (\<exists>evs n rec st. step s evs s' \<and> tokenFirst evs \<and>
           (case r of
              Inl e \<Rightarrow> prefix (actions evs) (expectedActions c rec st n)
            | Inr res \<Rightarrow>
                settled evs \<and> actions evs = expectedActions c rec st n \<and> status st = ''DONE'' \<and>
                recognizeServer E (length (requests AsyncRecognize (trace s))) = Inr rec \<and>
                (\<exists>d. downloadServer E (length (requests Download (trace s))) = Inr d \<and>
                     res = aggregate d))))"
proof -
  have parse: "speechToText c E audioPath encoding s = Some (Inl (ParseFileError reason), s)"
    if "parseFile E audioPath = Inl reason" for reason
    using that by (simp add: speechToText_def)
  have upload: "speechToText c E audioPath encoding s = Some (Inl e, s1)"
    if "parseFile E audioPath = Inr metadata"
      and "getAccessToken c E s = (Inl e, s1) \<or>
           uploadFileForRecognition c E audioPath s = (Inl e, s1)" for metadata e s1
    using that uploadFileForRecognition_token_fails [of c E s e s1 audioPath]
    by (auto simp add: speechToText_def)
  have start: "speechToText c E audioPath encoding s = Some (Inl e, s2)"
    if "parseFile E audioPath = Inr metadata"
      and "uploadFileForRecognition c E audioPath s = (Inr f, s1)"
      and "getAccessToken c E s1 = (Inl e, s2) \<or>
           startRecognition c E f metadata encoding s1 = (Inl e, s2)" for metadata f s1 e s2
    using that startRecognition_token_fails [of c E s1 e s2 f metadata encoding]
    by (auto simp add: speechToText_def)
  have firstStatus: "speechToText c E audioPath encoding s = Some (Inl e, s3)"
    if "parseFile E audioPath = Inr metadata"
      and "uploadFileForRecognition c E audioPath s = (Inr f, s1)"
      and "startRecognition c E f metadata encoding s1 = (Inr rec, s2)"
      and "getAccessToken c E (snd (dateNow E s2)) = (Inl e, s3) \<or>
           getRecognitionStatus c E rec (snd (dateNow E s2)) = (Inl e, s3)"
    for metadata f s1 rec s2 e s3
    using that getRecognitionStatus_token_fails [of c E "snd (dateNow E s2)" e s3 rec]
    by (auto simp add: speechToText_polling pollingStage_first_fails)
  have rounds:
    "(status st = ''DONE'' \<longrightarrow>
        (\<forall>e s4. getAccessToken c E s3 = (Inl e, s4) \<or>
                getRecognitionResult c E st s3 = (Inl e, s4) \<longrightarrow>
           speechToText c E audioPath encoding s = Some (Inl e, s4))
        \<and> (\<forall>d s4. getRecognitionResult c E st s3 = (Inr d, s4) \<longrightarrow>
             speechToText c E audioPath encoding s = Some (Inr (aggregate d), s4)))
     \<and> (status st \<noteq> ''DONE'' \<and> MAX_WAIT_TIME c < clock E (ticks s3) - startTime \<longrightarrow>
        speechToText c E audioPath encoding s
          = Some (Inl (Error ''Recognition timeout''), s3\<lparr>ticks := Suc (ticks s3)\<rparr>))
     \<and> (status st \<noteq> ''DONE'' \<and> clock E (ticks s3) - startTime \<le> MAX_WAIT_TIME c \<longrightarrow>
        (\<forall>e s4. getAccessToken c E (delay (RECOGNITION_POLLING_DELAY c) (snd (dateNow E s3)))
                 = (Inl e, s4) \<or>
                getRecognitionStatus c E rec
                   (delay (RECOGNITION_POLLING_DELAY c) (snd (dateNow E s3)))
                 = (Inl e, s4) \<longrightarrow>
           speechToText c E audioPath encoding s = Some (Inl e, s4)))"
    if reach: "parseFile E audioPath = Inr metadata"
      "uploadFileForRecognition c E audioPath s = (Inr f, s1)"
      "startRecognition c E f metadata encoding s1 = (Inr rec, s2)"
      and pre: "pollPrefix c E rec s2 n = Some (startTime, st, s3)"
    for metadata f s1 rec s2 n startTime st s3
    using pollingStage_after [OF pre]
      getRecognitionResult_token_fails [of c E s3 _ _ st]
      getRecognitionStatus_token_fails
        [of c E "delay (RECOGNITION_POLLING_DELAY c) (snd (dateNow E s3))" _ _ rec]
    by (auto simp add: speechToText_polling [OF reach] not_less split: if_splits)
  have forever: "speechToText c E audioPath encoding s = None"
    if reach: "parseFile E audioPath = Inr metadata"
      "uploadFileForRecognition c E audioPath s = (Inr f, s1)"
      "startRecognition c E f metadata encoding s1 = (Inr rec, s2)"
      and always: "\<forall>n. polling c E rec s2 n"
    for metadata f s1 rec s2
  proof -
    from always pollingStage_ends [of c E rec s2] have "pollingStage c E rec s2 = None"
      by (cases "pollingStage c E rec s2") auto
    then show ?thesis by (simp add: speechToText_polling [OF reach])
  qed
  have returns: "\<exists>r s'. speechToText c E audioPath encoding s = Some (r, s')"
    if "advancing c E"
    using speechToText_terminates [OF that] by auto
  show ?thesis
  proof (intro conjI allI impI)
    fix reason
    assume "parseFile E audioPath = Inl reason"
    then show "speechToText c E audioPath encoding s = Some (Inl (ParseFileError reason), s)"
      by (rule parse)
  next
    fix metadata e s1
    assume "parseFile E audioPath = Inr metadata"
      and "getAccessToken c E s = (Inl e, s1) \<or>
           uploadFileForRecognition c E audioPath s = (Inl e, s1)"
    then show "speechToText c E audioPath encoding s = Some (Inl e, s1)"
      by (rule upload)
  next
    fix metadata f s1 e s2
    assume "parseFile E audioPath = Inr metadata"
      and "uploadFileForRecognition c E audioPath s = (Inr f, s1)"
      and "getAccessToken c E s1 = (Inl e, s2) \<or>
           startRecognition c E f metadata encoding s1 = (Inl e, s2)"
    then show "speechToText c E audioPath encoding s = Some (Inl e, s2)"
      by (rule start)
  next
    fix metadata f s1 rec s2 e s3
    assume "parseFile E audioPath = Inr metadata"
      and "uploadFileForRecognition c E audioPath s = (Inr f, s1)"
      and "startRecognition c E f metadata encoding s1 = (Inr rec, s2)"
      and "getAccessToken c E (snd (dateNow E s2)) = (Inl e, s3) \<or>
           getRecognitionStatus c E rec (snd (dateNow E s2)) = (Inl e, s3)"
    then show "speechToText c E audioPath encoding s = Some (Inl e, s3)"
      by (rule firstStatus)
  next
    fix metadata f s1 rec s2 n startTime st s3
    assume "parseFile E audioPath = Inr metadata"
      and "uploadFileForRecognition c E audioPath s = (Inr f, s1)"
      and "startRecognition c E f metadata encoding s1 = (Inr rec, s2)"
      and "pollPrefix c E rec s2 n = Some (startTime, st, s3)"
    then show "\<exists>evs. step s evs s3 \<and> settled evs \<and>
        actions evs = butlast (expectedActions c rec st n)"
      by (intro speechToText_so_far)
  next
    fix metadata f s1 rec s2 n startTime st s3 e s4
    assume "parseFile E audioPath = Inr metadata"
      and "uploadFileForRecognition c E audioPath s = (Inr f, s1)"
      and "startRecognition c E f metadata encoding s1 = (Inr rec, s2)"
      and "pollPrefix c E rec s2 n = Some (startTime, st, s3)"
      and "status st = ''DONE''"
      and "getAccessToken c E s3 = (Inl e, s4) \<or> getRecognitionResult c E st s3 = (Inl e, s4)"
    with rounds show "speechToText c E audioPath encoding s = Some (Inl e, s4)"
      by blast
  next
    fix metadata f s1 rec s2 n startTime st s3 d s4
    assume "parseFile E audioPath = Inr metadata"
      and "uploadFileForRecognition c E audioPath s = (Inr f, s1)"
      and "startRecognition c E f metadata encoding s1 = (Inr rec, s2)"
      and "pollPrefix c E rec s2 n = Some (startTime, st, s3)"
      and "status st = ''DONE''"
      and "getRecognitionResult c E st s3 = (Inr d, s4)"
    with rounds show "speechToText c E audioPath encoding s = Some (Inr (aggregate d), s4)"
      by blast
  next
    fix metadata f s1 rec s2 n startTime st s3
    assume "parseFile E audioPath = Inr metadata"
      and "uploadFileForRecognition c E audioPath s = (Inr f, s1)"
      and "startRecognition c E f metadata encoding s1 = (Inr rec, s2)"
      and "pollPrefix c E rec s2 n = Some (startTime, st, s3)"
      and "status st \<noteq> ''DONE'' \<and> MAX_WAIT_TIME c < clock E (ticks s3) - startTime"
    with rounds show "speechToText c E audioPath encoding s
        = Some (Inl (Error ''Recognition timeout''), s3\<lparr>ticks := Suc (ticks s3)\<rparr>)"
      by blast
  next
    fix metadata f s1 rec s2 n startTime st s3 e s4
    assume "parseFile E audioPath = Inr metadata"
      and "uploadFileForRecognition c E audioPath s = (Inr f, s1)"
      and "startRecognition c E f metadata encoding s1 = (Inr rec, s2)"
      and "pollPrefix c E rec s2 n = Some (startTime, st, s3)"
      and "status st \<noteq> ''DONE'' \<and> clock E (ticks s3) - startTime \<le> MAX_WAIT_TIME c"
      and "getAccessToken c E (delay (RECOGNITION_POLLING_DELAY c) (snd (dateNow E s3)))
             = (Inl e, s4) \<or>
           getRecognitionStatus c E rec
             (delay (RECOGNITION_POLLING_DELAY c) (snd (dateNow E s3))) = (Inl e, s4)"
    with rounds show "speechToText c E audioPath encoding s = Some (Inl e, s4)"
      by blast
  next
    fix metadata f s1 rec s2
    assume "parseFile E audioPath = Inr metadata"
      and "uploadFileForRecognition c E audioPath s = (Inr f, s1)"
      and "startRecognition c E f metadata encoding s1 = (Inr rec, s2)"
      and "\<forall>n. polling c E rec s2 n"
    then show "speechToText c E audioPath encoding s = None"
      by (rule forever)
  next
    assume "advancing c E"
    then show "\<exists>r s'. speechToText c E audioPath encoding s = Some (r, s')"
      by (rule returns)
  next
    fix r s'
    assume "speechToText c E audioPath encoding s = Some (r, s')"
    then show "\<exists>evs n rec st. step s evs s' \<and> tokenFirst evs \<and>
           (case r of
              Inl e \<Rightarrow> prefix (actions evs) (expectedActions c rec st n)
            | Inr res \<Rightarrow>
                settled evs \<and> actions evs = expectedActions c rec st n \<and> status st = ''DONE'' \<and>
                recognizeServer E (length (requests AsyncRecognize (trace s))) = Inr rec \<and>
                (\<exists>d. downloadServer E (length (requests Download (trace s))) = Inr d \<and>
                     res = aggregate d))"
      by (rule speechToText_shape)
  qed
qed

theorem speechToText_stages_witness:
  "speechToText exampleConstants unreadableEnvironment ''audio.mp3'' ''MP3'' (exampleState None)
     = Some (Inl (ParseFileError ''unreadable''), exampleState None)
   \<and> map_option fst
         (speechToText exampleConstants noTokenEnvironment ''audio.mp3'' ''MP3''
            (exampleState None))
       = Some (Inl (Error ''Failed to get access token''))
   \<and> map_option fst
         (speechToText exampleConstants (refusingEnvironment Upload) ''audio.mp3'' ''MP3''
            (exampleState None))
       = Some (Inl (AxiosError ''refused''))
   \<and> map_option fst
         (speechToText exampleConstants (refusingEnvironment AsyncRecognize) ''audio.mp3'' ''MP3''
            (exampleState None))
       = Some (Inl (AxiosError ''refused''))
   \<and> map_option fst
         (speechToText exampleConstants (refusingEnvironment TaskGet) ''audio.mp3'' ''MP3''
            (exampleState None))
       = Some (Inl (AxiosError ''refused''))
   \<and> map_option fst
         (speechToText exampleConstants brokenPollEnvironment ''audio.mp3'' ''MP3''
            (exampleState None))
       = Some (Inl (AxiosError ''refused''))
   \<and> map_option fst
         (speechToText exampleConstants slowEnvironment ''audio.mp3'' ''MP3'' (exampleState None))
       = Some (Inl (Error ''Recognition timeout''))
   \<and> map_option fst
         (speechToText exampleConstants (refusingEnvironment Download) ''audio.mp3'' ''MP3''
            (exampleState None))
       = Some (Inl (AxiosError ''refused''))
   \<and> speechToText exampleConstants frozenEnvironment ''audio.mp3'' ''MP3'' (exampleState None)
       = None
   \<and> advancing exampleConstants slowEnvironment
   \<and> (\<exists>s' evs n rec st.
         speechToText exampleConstants doneEnvironment ''audio.mp3'' ''MP3'' (exampleState None)
           = Some (Inr \<lparr>text = ''hello world'', normalizedText = ''hello world''\<rparr>, s')
         \<and> step (exampleState None) evs s' \<and> settled evs
         \<and> actions evs = expectedActions exampleConstants rec st n \<and> status st = ''DONE'')"
proof -
  note stages = speechToText_stages [where audioPath = "''audio.mp3''" and c = exampleConstants
      and encoding = "''MP3''" and s = "exampleState None"]
  note run = uploadFileForRecognition_def startRecognition_def getRecognitionStatus_def
    getRecognitionResult_def number_def getAccessToken_def updateAccessToken_def axios_def
    dateNow_def delay_def exampleConstants_def exampleEnvironment_def exampleState_def
    exampleToken_def doneEnvironment_def
  let ?c = exampleConstants and ?p = "''audio.mp3''" and ?s = "exampleState None"

  have "parseFile unreadableEnvironment ?p = Inl ''unreadable''"
    by (simp add: unreadableEnvironment_def)
  with stages [where E = unreadableEnvironment]
  have parse: "speechToText ?c unreadableEnvironment ?p ''MP3'' ?s
      = Some (Inl (ParseFileError ''unreadable''), ?s)"
    by fast

  have "\<exists>metadata e s1.
     parseFile noTokenEnvironment ?p = Inr metadata \<and>
     getAccessToken ?c noTokenEnvironment ?s = (Inl e, s1) \<and>
     e = Error ''Failed to get access token''"
    by (simp add: run noTokenEnvironment_def)
  then obtain metadata s1 where
    "parseFile noTokenEnvironment ?p = Inr metadata"
    "getAccessToken ?c noTokenEnvironment ?s = (Inl (Error ''Failed to get access token''), s1)"
    by blast
  with stages [where E = noTokenEnvironment]
  have "speechToText ?c noTokenEnvironment ?p ''MP3'' ?s
      = Some (Inl (Error ''Failed to get access token''), s1)"
    by fast
  then have noToken:
    "map_option fst (speechToText ?c noTokenEnvironment ?p ''MP3'' ?s)
      = Some (Inl (Error ''Failed to get access token''))"
    by simp

  have "\<exists>metadata e s1.
     parseFile (refusingEnvironment Upload) ?p = Inr metadata \<and>
     uploadFileForRecognition ?c (refusingEnvironment Upload) ?p ?s = (Inl e, s1) \<and>
     e = AxiosError ''refused''"
    by (simp add: run refusingEnvironment_def)
  then obtain metadata s1 where
    "parseFile (refusingEnvironment Upload) ?p = Inr metadata"
    "uploadFileForRecognition ?c (refusingEnvironment Upload) ?p ?s = (Inl (AxiosError ''refused''), s1)"
    by blast
  with stages [where E = "(refusingEnvironment Upload)"]
  have "speechToText ?c (refusingEnvironment Upload) ?p ''MP3'' ?s
      = Some (Inl (AxiosError ''refused''), s1)"
    by fast
  then have upload:
    "map_option fst (speechToText ?c (refusingEnvironment Upload) ?p ''MP3'' ?s)
      = Some (Inl (AxiosError ''refused''))"
    by simp

  have "\<exists>metadata f s1 e s2.
     parseFile (refusingEnvironment AsyncRecognize) ?p = Inr metadata \<and>
     uploadFileForRecognition ?c (refusingEnvironment AsyncRecognize) ?p ?s = (Inr f, s1) \<and>
     startRecognition ?c (refusingEnvironment AsyncRecognize) f metadata ''MP3'' s1 = (Inl e, s2) \<and>
     e = AxiosError ''refused''"
    by (simp add: run refusingEnvironment_def)
  then obtain metadata f s1 s2 where
    "parseFile (refusingEnvironment AsyncRecognize) ?p = Inr metadata"
    "uploadFileForRecognition ?c (refusingEnvironment AsyncRecognize) ?p ?s = (Inr f, s1)"
    "startRecognition ?c (refusingEnvironment AsyncRecognize) f metadata ''MP3'' s1 = (Inl (AxiosError ''refused''), s2)"
    by blast
  with stages [where E = "(refusingEnvironment AsyncRecognize)"]
  have "speechToText ?c (refusingEnvironment AsyncRecognize) ?p ''MP3'' ?s
      = Some (Inl (AxiosError ''refused''), s2)"
    by fast
  then have start:
    "map_option fst (speechToText ?c (refusingEnvironment AsyncRecognize) ?p ''MP3'' ?s)
      = Some (Inl (AxiosError ''refused''))"
    by simp

  have "\<exists>metadata f s1 rec s2 e s3.
     parseFile (refusingEnvironment TaskGet) ?p = Inr metadata \<and>
     uploadFileForRecognition ?c (refusingEnvironment TaskGet) ?p ?s = (Inr f, s1) \<and>
     startRecognition ?c (refusingEnvironment TaskGet) f metadata ''MP3'' s1 = (Inr rec, s2) \<and>
     getRecognitionStatus ?c (refusingEnvironment TaskGet) rec (snd (dateNow (refusingEnvironment TaskGet) s2)) = (Inl e, s3) \<and>
     e = AxiosError ''refused''"
    by (simp add: run refusingEnvironment_def)
  then obtain metadata f s1 rec s2 s3 where
    "parseFile (refusingEnvironment TaskGet) ?p = Inr metadata"
    "uploadFileForRecognition ?c (refusingEnvironment TaskGet) ?p ?s = (Inr f, s1)"
    "startRecognition ?c (refusingEnvironment TaskGet) f metadata ''MP3'' s1 = (Inr rec, s2)"
    "getRecognitionStatus ?c (refusingEnvironment TaskGet) rec (snd (dateNow (refusingEnvironment TaskGet) s2)) = (Inl (AxiosError ''refused''), s3)"
    by blast
  with stages [where E = "(refusingEnvironment TaskGet)"]
  have "speechToText ?c (refusingEnvironment TaskGet) ?p ''MP3'' ?s
      = Some (Inl (AxiosError ''refused''), s3)"
    by fast
  then have firstStatus:
    "map_option fst (speechToText ?c (refusingEnvironment TaskGet) ?p ''MP3'' ?s)
      = Some (Inl (AxiosError ''refused''))"
    by simp

  have "\<exists>metadata f s1 rec s2 startTime st s3 e s4.
     parseFile brokenPollEnvironment ?p = Inr metadata \<and>
     uploadFileForRecognition ?c brokenPollEnvironment ?p ?s = (Inr f, s1) \<and>
     startRecognition ?c brokenPollEnvironment f metadata ''MP3'' s1 = (Inr rec, s2) \<and>
     pollPrefix ?c brokenPollEnvironment rec s2 0 = Some (startTime, st, s3) \<and>
     status st \<noteq> ''DONE'' \<and>
     clock brokenPollEnvironment (ticks s3) - startTime \<le> MAX_WAIT_TIME ?c \<and>
     getRecognitionStatus ?c brokenPollEnvironment rec
       (delay (RECOGNITION_POLLING_DELAY ?c) (snd (dateNow brokenPollEnvironment s3))) = (Inl e, s4) \<and>
     e = AxiosError ''refused''"
    by (simp add: run frozenEnvironment_def brokenPollEnvironment_def)
  then obtain metadata f s1 rec s2 startTime st s3 s4 where
    "parseFile brokenPollEnvironment ?p = Inr metadata"
    "uploadFileForRecognition ?c brokenPollEnvironment ?p ?s = (Inr f, s1)"
    "startRecognition ?c brokenPollEnvironment f metadata ''MP3'' s1 = (Inr rec, s2)"
    "pollPrefix ?c brokenPollEnvironment rec s2 0 = Some (startTime, st, s3)"
    "status st \<noteq> ''DONE''"
    "clock brokenPollEnvironment (ticks s3) - startTime \<le> MAX_WAIT_TIME ?c"
    "getRecognitionStatus ?c brokenPollEnvironment rec
       (delay (RECOGNITION_POLLING_DELAY ?c) (snd (dateNow brokenPollEnvironment s3))) = (Inl (AxiosError ''refused''), s4)"
    by blast
  with stages [where E = "brokenPollEnvironment"]
  have "speechToText ?c brokenPollEnvironment ?p ''MP3'' ?s
      = Some (Inl (AxiosError ''refused''), s4)"
    by fast
  then have laterStatus:
    "map_option fst (speechToText ?c brokenPollEnvironment ?p ''MP3'' ?s)
      = Some (Inl (AxiosError ''refused''))"
    by simp

  have "\<exists>metadata f s1 rec s2 startTime st s3 e s4.
     parseFile (refusingEnvironment Download) ?p = Inr metadata \<and>
     uploadFileForRecognition ?c (refusingEnvironment Download) ?p ?s = (Inr f, s1) \<and>
     startRecognition ?c (refusingEnvironment Download) f metadata ''MP3'' s1 = (Inr rec, s2) \<and>
     pollPrefix ?c (refusingEnvironment Download) rec s2 0 = Some (startTime, st, s3) \<and>
     status st = ''DONE'' \<and>
     getRecognitionResult ?c (refusingEnvironment Download) st s3 = (Inl e, s4) \<and>
     e = AxiosError ''refused''"
    by (simp add: run refusingEnvironment_def)
  then obtain metadata f s1 rec s2 startTime st s3 s4 where
    "parseFile (refusingEnvironment Download) ?p = Inr metadata"
    "uploadFileForRecognition ?c (refusingEnvironment Download) ?p ?s = (Inr f, s1)"
    "startRecognition ?c (refusingEnvironment Download) f metadata ''MP3'' s1 = (Inr rec, s2)"
    "pollPrefix ?c (refusingEnvironment Download) rec s2 0 = Some (startTime, st, s3)"
    "status st = ''DONE''"
    "getRecognitionResult ?c (refusingEnvironment Download) st s3 = (Inl (AxiosError ''refused''), s4)"
    by blast
  with stages [where E = "(refusingEnvironment Download)"]
  have "speechToText ?c (refusingEnvironment Download) ?p ''MP3'' ?s
      = Some (Inl (AxiosError ''refused''), s4)"
    by fast
  then have download:
    "map_option fst (speechToText ?c (refusingEnvironment Download) ?p ''MP3'' ?s)
      = Some (Inl (AxiosError ''refused''))"
    by simp

  have "\<exists>metadata f s1 rec s2 startTime st s3.
     parseFile slowEnvironment ?p = Inr metadata \<and>
     uploadFileForRecognition ?c slowEnvironment ?p ?s = (Inr f, s1) \<and>
     startRecognition ?c slowEnvironment f metadata ''MP3'' s1 = (Inr rec, s2) \<and>
     pollPrefix ?c slowEnvironment rec s2 (Suc 0) = Some (startTime, st, s3) \<and>
     status st \<noteq> ''DONE'' \<and>
     MAX_WAIT_TIME ?c < clock slowEnvironment (ticks s3) - startTime"
    by (simp add: run slowEnvironment_def)
  then obtain metadata f s1 rec s2 startTime st s3 where
    "parseFile slowEnvironment ?p = Inr metadata"
    "uploadFileForRecognition ?c slowEnvironment ?p ?s = (Inr f, s1)"
    "startRecognition ?c slowEnvironment f metadata ''MP3'' s1 = (Inr rec, s2)"
    "pollPrefix ?c slowEnvironment rec s2 (Suc 0) = Some (startTime, st, s3)"
    "status st \<noteq> ''DONE''"
    "MAX_WAIT_TIME ?c < clock slowEnvironment (ticks s3) - startTime"
    by blast
  with stages [where E = slowEnvironment]
  have "speechToText ?c slowEnvironment ?p ''MP3'' ?s
      = Some (Inl (Error ''Recognition timeout''), s3\<lparr>ticks := Suc (ticks s3)\<rparr>)"
    by fast
  then have timeout:
    "map_option fst (speechToText ?c slowEnvironment ?p ''MP3'' ?s)
       = Some (Inl (Error ''Recognition timeout''))"
    by simp

  have "\<exists>metadata f s1 rec s2.
     parseFile frozenEnvironment ?p = Inr metadata \<and>
     uploadFileForRecognition ?c frozenEnvironment ?p ?s = (Inr f, s1) \<and>
     startRecognition ?c frozenEnvironment f metadata ''MP3'' s1 = (Inr rec, s2)"
    by (simp add: run frozenEnvironment_def)
  then obtain metadata f s1 rec s2 where
    "parseFile frozenEnvironment ?p = Inr metadata"
    "uploadFileForRecognition ?c frozenEnvironment ?p ?s = (Inr f, s1)"
    "startRecognition ?c frozenEnvironment f metadata ''MP3'' s1 = (Inr rec, s2)"
    by blast
  moreover have "\<forall>n. polling ?c frozenEnvironment rec s2 n"
    by (intro allI polling_forever)
      (simp_all add: frozenEnvironment_def exampleEnvironment_def exampleConstants_def)
  ultimately have forever: "speechToText ?c frozenEnvironment ?p ''MP3'' ?s = None"
    using stages [where E = frozenEnvironment] by meson

  have advance: "advancing ?c slowEnvironment"
    unfolding advancing_def
  proof
    fix t0 :: int
    have "\<forall>k\<ge>nat (abs t0) + 4. MAX_WAIT_TIME ?c < clock slowEnvironment k - t0"
    proof (intro allI impI)
      fix k
      assume "nat (abs t0) + 4 \<le> k"
      then have "abs t0 + 4 \<le> int k" by linarith
      then show "MAX_WAIT_TIME ?c < clock slowEnvironment k - t0"
        by (simp add: slowEnvironment_def exampleEnvironment_def exampleConstants_def)
    qed
    then show "\<exists>K. \<forall>k\<ge>K. MAX_WAIT_TIME ?c < clock slowEnvironment k - t0" ..
  qed

  have "\<exists>metadata f s1 rec s2 startTime st s3 d s4.
     parseFile doneEnvironment ?p = Inr metadata \<and>
     uploadFileForRecognition ?c doneEnvironment ?p ?s = (Inr f, s1) \<and>
     startRecognition ?c doneEnvironment f metadata ''MP3'' s1 = (Inr rec, s2) \<and>
     pollPrefix ?c doneEnvironment rec s2 0 = Some (startTime, st, s3) \<and>
     status st = ''DONE'' \<and>
     getRecognitionResult ?c doneEnvironment st s3 = (Inr d, s4) \<and>
     aggregate d = \<lparr>text = ''hello world'', normalizedText = ''hello world''\<rparr>"
    by (simp add: run aggregate_def trim_def isWhiteSpace_def)
  then obtain metadata f s1 rec s2 startTime st s3 d s4 where
    "parseFile doneEnvironment ?p = Inr metadata"
    "uploadFileForRecognition ?c doneEnvironment ?p ?s = (Inr f, s1)"
    "startRecognition ?c doneEnvironment f metadata ''MP3'' s1 = (Inr rec, s2)"
    "pollPrefix ?c doneEnvironment rec s2 0 = Some (startTime, st, s3)"
    "status st = ''DONE''"
    "getRecognitionResult ?c doneEnvironment st s3 = (Inr d, s4)"
    and whole: "aggregate d = \<lparr>text = ''hello world'', normalizedText = ''hello world''\<rparr>"
    by blast
  with stages [where E = doneEnvironment]
  have "speechToText ?c doneEnvironment ?p ''MP3'' ?s = Some (Inr (aggregate d), s4)"
    by fast
  with whole have result: "speechToText ?c doneEnvironment ?p ''MP3'' ?s
      = Some (Inr \<lparr>text = ''hello world'', normalizedText = ''hello world''\<rparr>, s4)"
    by simp
  from stages [where E = doneEnvironment, THEN conjunct2, THEN conjunct2, THEN conjunct2,
      rule_format, OF result]
  have "\<exists>evs n rec st. step ?s evs s4 \<and> settled evs \<and>
     actions evs = expectedActions ?c rec st n \<and> status st = ''DONE''"
    by auto
  with result have shape: "\<exists>s' evs n rec st.
     speechToText ?c doneEnvironment ?p ''MP3'' ?s
       = Some (Inr \<lparr>text = ''hello world'', normalizedText = ''hello world''\<rparr>, s')
     \<and> step ?s evs s' \<and> settled evs
     \<and> actions evs = expectedActions ?c rec st n \<and> status st = ''DONE''"
    by blast

  from parse noToken upload start firstStatus laterStatus timeout download forever advance shape
  show ?thesis by (intro conjI)
qed

text \<open>
  C10. In a run of \<^verbatim>\<open>speechToText\<close> whose first status query is answered with the
  status \<^verbatim>\<open>DONE\<close>, the operation returns, its outcome is not the error
  \<^verbatim>\<open>Recognition timeout\<close>, and among all it did there is one status query and no
  sleep. Nothing is assumed of the clock, so this holds however late the first status query
  is made.
\<close>

theorem speechToText_first_status_done:
  assumes parse: "parseFile E audioPath = Inr metadata"
    and upload: "uploadFileForRecognition c E audioPath s = (Inr fileUploadResponse, s1)"
    and start: "startRecognition c E fileUploadResponse metadata encoding s1
                  = (Inr recognitionResponse, s2)"
    and first: "getRecognitionStatus c E recognitionResponse (snd (dateNow E s2))
                  = (Inr recognitionStatus, s3)"
    and fin: "status recognitionStatus = ''DONE''"
  shows "\<exists>r s' evs. speechToText c E audioPath encoding s = Some (r, s') \<and>
           r \<noteq> Inl (Error ''Recognition timeout'') \<and>
           trace s' = trace s @ evs \<and>
           filter isPoll (actions evs)
             = [Query TaskGet (SPEECH_BASE_URL c @ ''/task:get?id='' @ id' recognitionResponse)]"
proof -
  let ?u = "SPEECH_BASE_URL c @ ''/task:get?id='' @ id' recognitionResponse"
  from uploadFileForRecognition_effect [OF upload] obtain evs1 where
    st1: "step s evs1 s1" and act1: "actions evs1 = [Query Upload (SPEECH_BASE_URL c @ ''/data:upload'')]"
    by auto
  from startRecognition_effect [OF start] obtain evs2 where
    st2: "step s1 evs2 s2"
    and act2: "actions evs2 = [Query AsyncRecognize (SPEECH_BASE_URL c @ ''/speech:async_recognize'')]"
    by auto
  from getRecognitionStatus_effect [OF first] obtain evs3 where
    st3: "step (snd (dateNow E s2)) evs3 s3" and act3: "actions evs3 = [Query TaskGet ?u]"
    by auto
  have poll: "pollingStage c E recognitionResponse s2 = Some (Inr recognitionStatus, s3)"
    using first pollLoop_done [OF fin] by (simp add: pollingStage_def case_prod_beta)
  obtain r4 s4 where f4: "getRecognitionResult c E recognitionStatus s3 = (r4, s4)"
    by (cases "getRecognitionResult c E recognitionStatus s3")
  from getRecognitionResult_effect [OF f4] obtain evs4 where
    st4: "step s3 evs4 s4"
    and out4: "case r4 of
         Inl e \<Rightarrow> failure E (trace s4) e \<and>
           (actions evs4 = [] \<or>
            actions evs4 = [Query Download (SPEECH_BASE_URL c @ ''/data:download?response_file_id=''
                              @ response_file_id recognitionStatus)])
       | Inr v \<Rightarrow>
           actions evs4 = [Query Download (SPEECH_BASE_URL c @ ''/data:download?response_file_id=''
                              @ response_file_id recognitionStatus)] \<and>
           downloadServer E (length (requests Download (trace s3))) = Inr v"
    by blast
  have "step s (((evs1 @ evs2) @ [] @ evs3) @ evs4) s4"
    by (rule step_trans [OF step_trans [OF step_trans [OF st1 st2]
          step_trans [OF step_dateNow st3]] st4])
  then have tr: "trace s4 = trace s @ (evs1 @ evs2 @ evs3 @ evs4)" by (simp add: step_def)
  have polls: "filter isPoll (actions (evs1 @ evs2 @ evs3 @ evs4)) = [Query TaskGet ?u]"
    using out4 by (auto simp add: act1 act2 act3 split: sum.splits)
  show ?thesis
  proof (cases r4)
    case (Inl e)
    with out4 have "e \<noteq> Error ''Recognition timeout''" by (auto dest: failure_not_timeout)
    moreover from Inl parse upload start poll f4 have
      "speechToText c E audioPath encoding s = Some (Inl e, s4)"
      by (simp add: speechToText_def)
    ultimately show ?thesis using tr polls by blast
  next
    case (Inr recognitionResult)
    with parse upload start poll f4 have
      "speechToText c E audioPath encoding s = Some (Inr (aggregate recognitionResult), s4)"
      by (simp add: speechToText_def)
    then show ?thesis using tr polls by blast
  qed
qed

theorem speechToText_first_status_done_witness:
  "\<exists>metadata fileUploadResponse s1 s2 recognitionStatus s3.
     parseFile doneEnvironment ''audio.mp3'' = Inr metadata
     \<and> uploadFileForRecognition exampleConstants doneEnvironment ''audio.mp3'' (exampleState None)
         = (Inr fileUploadResponse, s1)
     \<and> startRecognition exampleConstants doneEnvironment fileUploadResponse metadata ''MP3'' s1
         = (Inr exampleRecognition, s2)
     \<and> getRecognitionStatus exampleConstants doneEnvironment exampleRecognition
          (snd (dateNow doneEnvironment s2)) = (Inr recognitionStatus, s3)
     \<and> status recognitionStatus = ''DONE''
     \<and> (\<exists>r s' evs.
           speechToText exampleConstants doneEnvironment ''audio.mp3'' ''MP3'' (exampleState None)
             = Some (r, s')
           \<and> r \<noteq> Inl (Error ''Recognition timeout'')
           \<and> trace s' = trace (exampleState None) @ evs
           \<and> filter isPoll (actions evs) = [Query TaskGet ''BASE/task:get?id=job''])"
proof -
  let ?md = "\<lparr>sampleRate = Some 16000, numberOfChannels = Some 1\<rparr>"
  let ?fu = "\<lparr>request_file_id = ''file''\<rparr>"
  let ?st = "\<lparr>id' = ''job'', created_at = ''t0'', updated_at = ''t1'',
               status = ''DONE'', response_file_id = ''response''\<rparr>"
  let ?s1 = "snd (uploadFileForRecognition exampleConstants doneEnvironment ''audio.mp3''
                (exampleState None))"
  let ?s2 = "snd (startRecognition exampleConstants doneEnvironment ?fu ?md ''MP3'' ?s1)"
  let ?s3 = "snd (getRecognitionStatus exampleConstants doneEnvironment exampleRecognition
                (snd (dateNow doneEnvironment ?s2)))"
  have parse: "parseFile doneEnvironment ''audio.mp3'' = Inr ?md"
    by (simp add: doneEnvironment_def exampleEnvironment_def)
  have upload: "uploadFileForRecognition exampleConstants doneEnvironment ''audio.mp3''
       (exampleState None) = (Inr ?fu, ?s1)"
    by (simp add: uploadFileForRecognition_def getAccessToken_def updateAccessToken_def
        axios_def dateNow_def exampleConstants_def exampleEnvironment_def exampleState_def
        exampleToken_def doneEnvironment_def)
  have start: "startRecognition exampleConstants doneEnvironment ?fu ?md ''MP3'' ?s1
       = (Inr exampleRecognition, ?s2)"
    by (simp add: uploadFileForRecognition_def startRecognition_def number_def
        getAccessToken_def updateAccessToken_def axios_def dateNow_def exampleConstants_def
        exampleEnvironment_def exampleState_def exampleToken_def exampleRecognition_def
        doneEnvironment_def)
  have first: "getRecognitionStatus exampleConstants doneEnvironment exampleRecognition
       (snd (dateNow doneEnvironment ?s2)) = (Inr ?st, ?s3)"
    by (simp add: uploadFileForRecognition_def startRecognition_def number_def
        getRecognitionStatus_def delay_def getAccessToken_def updateAccessToken_def axios_def
        dateNow_def exampleConstants_def exampleEnvironment_def exampleState_def
        exampleToken_def exampleRecognition_def doneEnvironment_def)
  have fin: "status ?st = ''DONE''" by simp
  from speechToText_first_status_done [OF parse upload start first fin]
  obtain r s' evs where
    "speechToText exampleConstants doneEnvironment ''audio.mp3'' ''MP3'' (exampleState None)
       = Some (r, s')"
    "r \<noteq> Inl (Error ''Recognition timeout'')"
    "trace s' = trace (exampleState None) @ evs"
    "filter isPoll (actions evs) = [Query TaskGet ''BASE/task:get?id=job'']"
    by (auto simp add: exampleConstants_def exampleRecognition_def)
  with parse upload start first fin show ?thesis by blast
qed

section \<open>The session identifier\<close>

lemma rqUid_requests:
  "list_all (rqUid sid) evs \<Longrightarrow>
   \<forall>q \<in> set (requests TokenExchange evs). map_of (headers q) ''RqUID'' = Some sid"
proof (induction evs)
  case Nil
  show ?case by simp
next
  case (Cons e evs)
  then show ?case by (cases e) auto
qed

text \<open>
  C8, as the claim states it. The empty string is a string a caller can supply, and the
  client built with it does not have it as its session identifier: it has a generated one.
\<close>

theorem constructor_empty_sessionId:
  "sessionId (constructor noTokenEnvironment ''key'' (Some '''')
      \<lparr>ticks = 0, uuids = 0, trace = []\<rparr>) = ''generated''
   \<and> sessionId (constructor noTokenEnvironment ''key'' (Some '''')
      \<lparr>ticks = 0, uuids = 0, trace = []\<rparr>) \<noteq> ''''"
  by (simp add: constructor_def noTokenEnvironment_def exampleEnvironment_def)

text \<open>
  C8, amended. A client built with a session identifier that is not empty has this
  identifier, and none is generated. A client built with none, or with the empty string, has
  the next generated identifier, and exactly one is generated. A token exchange sends one
  request, whose header \<^verbatim>\<open>RqUID\<close> is the session identifier, and keeps the identifier.
  A run of \<^verbatim>\<open>speechToText\<close> keeps the identifier, generates none, and every token request
  it sends has the identifier as its \<^verbatim>\<open>RqUID\<close>.
\<close>

theorem sessionId_fixed:
  "(sid \<noteq> [] \<longrightarrow>
      sessionId (constructor E key (Some sid) h) = sid \<and>
      uuids (constructor E key (Some sid) h) = uuids h)
   \<and> sessionId (constructor E key None h) = uuid_v4 E (uuids h)
   \<and> uuids (constructor E key None h) = Suc (uuids h)
   \<and> sessionId (constructor E key (Some []) h) = uuid_v4 E (uuids h)
   \<and> uuids (constructor E key (Some []) h) = Suc (uuids h)
   \<and> (\<exists>q. trace (snd (updateAccessToken c E s)) = trace s @ [Http TokenExchange q] \<and>
          map_of (headers q) ''RqUID'' = Some (sessionId s) \<and>
          sessionId (snd (updateAccessToken c E s)) = sessionId s)
   \<and> (speechToText c E audioPath encoding s = Some (r, s') \<longrightarrow>
        sessionId s' = sessionId s \<and> uuids s' = uuids s \<and>
        (\<exists>evs. trace s' = trace s @ evs \<and>
           (\<forall>q \<in> set (requests TokenExchange evs).
              map_of (headers q) ''RqUID'' = Some (sessionId s))))"
proof (intro conjI impI)
  assume "sid \<noteq> []"
  then show "sessionId (constructor E key (Some sid) h) = sid"
    and "uuids (constructor E key (Some sid) h) = uuids h"
    by (simp_all add: constructor_def)
next
  show "sessionId (constructor E key None h) = uuid_v4 E (uuids h)"
    and "uuids (constructor E key None h) = Suc (uuids h)"
    and "sessionId (constructor E key (Some []) h) = uuid_v4 E (uuids h)"
    and "uuids (constructor E key (Some []) h) = Suc (uuids h)"
    by (simp_all add: constructor_def)
next
  show "\<exists>q. trace (snd (updateAccessToken c E s)) = trace s @ [Http TokenExchange q] \<and>
          map_of (headers q) ''RqUID'' = Some (sessionId s) \<and>
          sessionId (snd (updateAccessToken c E s)) = sessionId s"
    by (simp add: updateAccessToken_def axios_def Let_def split: sum.splits)
next
  assume run: "speechToText c E audioPath encoding s = Some (r, s')"
  from speechToText_effect [OF run] obtain evs where st: "step s evs s'" by blast
  then show "sessionId s' = sessionId s" and "uuids s' = uuids s"
    by (simp_all add: step_def)
  from st rqUid_requests [of "sessionId s" evs]
  show "\<exists>evs. trace s' = trace s @ evs \<and>
           (\<forall>q \<in> set (requests TokenExchange evs).
              map_of (headers q) ''RqUID'' = Some (sessionId s))"
    by (auto simp add: step_def)
qed

theorem sessionId_fixed_witness:
  "''my-session'' \<noteq> []
   \<and> sessionId (constructor doneEnvironment ''key'' (Some ''my-session'')
        \<lparr>ticks = 0, uuids = 0, trace = []\<rparr>) = ''my-session''
   \<and> (\<exists>s'. speechToText exampleConstants doneEnvironment ''audio.mp3'' ''MP3'' (exampleState None)
          = Some (Inr \<lparr>text = ''hello world'', normalizedText = ''hello world''\<rparr>, s')
        \<and> sessionId s' = sessionId (exampleState None)
        \<and> list_all (\<lambda>q. map_of (headers q) ''RqUID'' = Some ''session'')
            (requests TokenExchange (trace s'))
        \<and> length (requests TokenExchange (trace s')) = 1)"
proof -
  have "\<exists>s'. speechToText exampleConstants doneEnvironment ''audio.mp3'' ''MP3'' (exampleState None)
          = Some (Inr \<lparr>text = ''hello world'', normalizedText = ''hello world''\<rparr>, s')
        \<and> length (requests TokenExchange (trace s')) = 1"
    by (simp add: speechToText_def uploadFileForRecognition_def startRecognition_def
        getRecognitionResult_def pollingStage_def number_def aggregate_def trim_def
        isWhiteSpace_def getRecognitionStatus_def delay_def getAccessToken_def
        updateAccessToken_def axios_def dateNow_def exampleConstants_def exampleEnvironment_def
        exampleState_def exampleToken_def doneEnvironment_def pollLoop_done)
  then obtain s' where
    run: "speechToText exampleConstants doneEnvironment ''audio.mp3'' ''MP3'' (exampleState None)
          = Some (Inr \<lparr>text = ''hello world'', normalizedText = ''hello world''\<rparr>, s')"
    and one: "length (requests TokenExchange (trace s')) = 1"
    by blast
  note fixed = sessionId_fixed [where sid = "''my-session''" and E = doneEnvironment
      and key = "''key''" and h = "\<lparr>ticks = 0, uuids = 0, trace = []\<rparr>"
      and c = exampleConstants and audioPath = "''audio.mp3''" and encoding = "''MP3''"
      and s = "exampleState None" and s' = s'
      and r = "Inr \<lparr>text = ''hello world'', normalizedText = ''hello world''\<rparr>"]
  from fixed run have "sessionId s' = sessionId (exampleState None)"
    and "list_all (\<lambda>q. map_of (headers q) ''RqUID'' = Some ''session'')
            (requests TokenExchange (trace s'))"
    by (auto simp add: exampleState_def list_all_iff)
  moreover from fixed have "sessionId (constructor doneEnvironment ''key'' (Some ''my-session'')
        \<lparr>ticks = 0, uuids = 0, trace = []\<rparr>) = ''my-session''"
    by simp
  ultimately show ?thesis using run one by auto
qed

end
